theory Spec2Isabelle
  imports Main
begin

section \<open>Python strings\<close>

text \<open>
  A Python \<^verbatim>\<open>str\<close> is a sequence of Unicode code points, and \<^verbatim>\<open>len\<close> and slicing count
  code points. A string is therefore a list of code points (natural numbers); an ASCII
  literal of the source is written \<open>ustr ''...''\<close>.
\<close>

type_synonym pychar = nat
type_synonym pystr = "pychar list"

definition ustr :: "string \<Rightarrow> pystr" where
  "ustr s = map of_char s"

text \<open>The warning marker of the source, U+26A0 followed by U+FE0F.\<close>

definition warning_marker :: pystr where
  "warning_marker = [9888, 65039]"

text \<open>\<^verbatim>\<open>str.isspace\<close> on one code point: the Unicode whitespace characters.\<close>

definition isspace :: "pychar \<Rightarrow> bool" where
  "isspace c \<longleftrightarrow>
     (9 \<le> c \<and> c \<le> 13) \<or> (28 \<le> c \<and> c \<le> 32) \<or> c = 133 \<or> c = 160 \<or> c = 5760 \<or>
     (8192 \<le> c \<and> c \<le> 8202) \<or> c = 8232 \<or> c = 8233 \<or> c = 8239 \<or> c = 8287 \<or> c = 12288"

text \<open>\<^verbatim>\<open>s.strip()\<close>: leading and trailing whitespace removed.\<close>

definition strip :: "pystr \<Rightarrow> pystr" where
  "strip s = rev (dropWhile isspace (rev (dropWhile isspace s)))"

text \<open>\<^verbatim>\<open>sep.join(xs)\<close>.\<close>

fun join :: "pystr \<Rightarrow> pystr list \<Rightarrow> pystr" where
  "join sep [] = []"
| "join sep [x] = x"
| "join sep (x # y # ys) = x @ sep @ join sep (y # ys)"

text \<open>
  \<^verbatim>\<open>s.splitlines()\<close>: the lines of \<open>s\<close> without their line boundaries. A boundary is one of
  the characters below, or a carriage return followed by a line feed; a boundary at the
  very end opens no further line. \<open>splitlines_from line s\<close> reads \<open>s\<close> with \<open>line\<close> the
  part of the current line read so far.
\<close>

definition is_linebreak :: "pychar \<Rightarrow> bool" where
  "is_linebreak c \<longleftrightarrow>
     (10 \<le> c \<and> c \<le> 13) \<or> (28 \<le> c \<and> c \<le> 30) \<or> c = 133 \<or> c = 8232 \<or> c = 8233"

fun splitlines_from :: "pystr \<Rightarrow> pystr \<Rightarrow> pystr list" where
  "splitlines_from line [] = (if line = [] then [] else [line])"
| "splitlines_from line [c] = (if is_linebreak c then [line] else [line @ [c]])"
| "splitlines_from line (c # d # cs) =
     (if c = 13 \<and> d = 10 then line # splitlines_from [] cs
      else if is_linebreak c then line # splitlines_from [] (d # cs)
      else splitlines_from (line @ [c]) (d # cs))"

definition splitlines :: "pystr \<Rightarrow> pystr list" where
  "splitlines s = splitlines_from [] s"

text \<open>\<^verbatim>\<open>s.startswith(p)\<close> and \<^verbatim>\<open>p in s\<close>.\<close>

definition startswith :: "pystr \<Rightarrow> pystr \<Rightarrow> bool" where
  "startswith s p \<longleftrightarrow> take (length p) s = p"

definition contains :: "pystr \<Rightarrow> pystr \<Rightarrow> bool" where
  "contains s p \<longleftrightarrow> (\<exists>i \<in> set [0..<Suc (length s)]. take (length p) (drop i s) = p)"

section \<open>parse.py: the content analyzer\<close>

subsection \<open>The endpoint and the effects of a call\<close>

text \<open>
  Exceptions are values. The classes are the ones the handlers of
  \<^verbatim>\<open>_process_full_content\<close> and \<^verbatim>\<open>analyze_content\<close> tell apart, and those the library
  calls of the source are known to raise. \<open>ResourceExhausted\<close>, \<open>DeadlineExceeded\<close> and
  \<open>ServiceUnavailable\<close> are subclasses of \<open>GoogleAPIError\<close>. \<open>KeyboardInterrupt\<close>,
  \<open>SystemExit\<close> and \<open>OtherBaseException\<close> (any further class that derives from
  \<^verbatim>\<open>BaseException\<close> only) are not subclasses of \<^verbatim>\<open>Exception\<close>; every other class
  is. \<open>exn_str e\<close> is \<^verbatim>\<open>str(e)\<close>.
\<close>

datatype exn_class =
  ResourceExhausted | DeadlineExceeded | ServiceUnavailable | GoogleAPIError
  | ValueError | OverflowError | OSError | ParserRejectedMarkup | OtherException
  | KeyboardInterrupt | SystemExit | OtherBaseException

record pyexn =
  exn_cls :: exn_class
  exn_str :: pystr

definition is_GoogleAPIError :: "exn_class \<Rightarrow> bool" where
  "is_GoogleAPIError c \<longleftrightarrow>
     c = ResourceExhausted \<or> c = DeadlineExceeded \<or> c = ServiceUnavailable \<or> c = GoogleAPIError"

text \<open>\<^verbatim>\<open>isinstance(e, Exception)\<close>: what a handler \<^verbatim>\<open>except Exception\<close> catches.\<close>

definition is_Exception :: "exn_class \<Rightarrow> bool" where
  "is_Exception c \<longleftrightarrow>
     (case c of KeyboardInterrupt \<Rightarrow> False | SystemExit \<Rightarrow> False
      | OtherBaseException \<Rightarrow> False | _ \<Rightarrow> True)"

text \<open>
  What the source reads of a response object: \<^verbatim>\<open>response.text\<close> (the empty string stands
  for every falsy value) and, when the attribute \<^verbatim>\<open>prompt_feedback\<close> exists, its
  \<^verbatim>\<open>block_reason\<close>: falsy (\<open>NoBlock\<close>) or truthy with the text it formats to.
\<close>

datatype block_reason = NoBlock | Blocked pystr

record response =
  text_attr :: pystr
  prompt_feedback :: "block_reason option"

text \<open>
  One run of the \<^verbatim>\<open>try\<close> body of an attempt: \<^verbatim>\<open>generate_content\<close> returns a response
  (\<open>None\<close> for a falsy one) or an exception is raised. The endpoint gives the outcome of the
  request of each attempt, from the attempt's number and the prompt sent.
\<close>

datatype outcome = Returned "response option" | Raised pyexn

type_synonym endpoint = "nat \<Rightarrow> pystr \<Rightarrow> outcome"

text \<open>
  The observable effects of one call of \<^verbatim>\<open>analyze_content\<close>: the prompts of the requests
  issued, in order, and the arguments of the completed \<^verbatim>\<open>time.sleep\<close> calls, in order.
  Logging is not modelled.
\<close>

record trace =
  requests :: "pystr list"
  sleeps :: "int list"

definition no_effects :: trace where
  "no_effects = \<lparr>requests = [], sleeps = []\<rparr>"

text \<open>
  \<^verbatim>\<open>time.sleep(secs)\<close> either sleeps and returns, or raises: \<^verbatim>\<open>ValueError\<close> on a negative
  argument, \<^verbatim>\<open>OverflowError\<close> or \<^verbatim>\<open>OSError\<close> on an argument beyond what the platform
  accepts, \<^verbatim>\<open>KeyboardInterrupt\<close> when the sleep is interrupted. Which durations the
  platform accepts is not in the source, so the behaviour of the call is a parameter:
  the exception it raises for a duration, or \<open>None\<close> when it sleeps and returns.
\<close>

type_synonym sleeper = "int \<Rightarrow> pyexn option"

definition time_sleep :: "sleeper \<Rightarrow> int \<Rightarrow> trace \<Rightarrow> pyexn + trace" where
  "time_sleep sl secs tr =
     (case sl secs of
        Some e \<Rightarrow> Inl e
      | None \<Rightarrow> Inr (tr\<lparr>sleeps := sleeps tr @ [secs]\<rparr>))"

record analyzer =
  max_retries :: int
  retry_delay :: int

definition default_analyzer :: analyzer where
  "default_analyzer = \<lparr>max_retries = 3, retry_delay = 5\<rparr>"

definition MAX_CONTENT_LENGTH :: nat where
  "MAX_CONTENT_LENGTH = 700 * 1000"

subsection \<open>\<^verbatim>\<open>_build_prompt\<close>\<close>

definition prompt_preamble :: pystr where
  \<open>prompt_preamble = ustr
    (''**Role:** You are an AI assistant specialized in analyzing provided web page text content to answer user questions accurately.\<newline>'' @
     ''\<newline>'' @
     ''**Task:** Analyze the following **Web Page Text Content** and answer the **User Query** based *solely* on the information present in the text.\<newline>'' @
     ''\<newline>'' @
     ''**Web Page Text Content:**\<newline>'')\<close>

definition start_delimiter :: pystr where
  "start_delimiter = ustr ''--- START ---\<newline>''"

definition end_delimiter :: pystr where
  "end_delimiter = ustr ''\<newline>--- END ---\<newline>''"

definition prompt_query_label :: pystr where
  "prompt_query_label = ustr ''\<newline>\<newline>**User Query:** ''"

definition prompt_instructions :: pystr where
  \<open>prompt_instructions = ustr
    (''\<newline>'' @
     ''\<newline>'' @
     ''**Instructions for Response:**\<newline>'' @
     ''1.  **Base your answer strictly on the provided "Web Page Text Content".** Do not use external knowledge or make assumptions.\<newline>'' @
     ''2.  **Address the specific "User Query" directly.**\<newline>'' @
     ''3.  **If the information needed to answer the query is present, extract and synthesize it clearly.** Quote relevant snippets briefly if helpful using markdown blockquotes (`> snippet`).\<newline>'' @
     ''4.  **If the information is *not* found in the text, explicitly state that.** For example: "The provided text does not contain information about X."\<newline>'' @
     ''5.  **Use Markdown formatting** for readability (e.g., headings `##`, lists `* item`, bold `**text**`).\<newline>'' @
     ''6.  **Be objective and factual.**\<newline>'' @
     ''7.  **Provide a comprehensive answer covering all parts of the query if possible within the text.**\<newline>'' @
     ''8.  **Do NOT return an empty response.** If you cannot answer, explain why based on instruction #4.\<newline>'')\<close>

definition context_heading :: pystr where
  "context_heading = ustr ''\<newline>Previous Conversation Context:\<newline>''"

text \<open>
  \<^verbatim>\<open>history[-4:]\<close>: the last four entries, all of them when there are fewer.
\<close>

definition last4 :: "'a list \<Rightarrow> 'a list" where
  "last4 history = drop (length history - 4) history"

definition context_line :: "nat \<times> pystr \<Rightarrow> pystr" where
  "context_line = (\<lambda>(i, msg).
     (if i mod 2 = 0 then ustr ''User'' else ustr ''Assistant'') @ ustr '': '' @ msg)"

definition context_str :: "pystr list option \<Rightarrow> pystr" where
  "context_str history =
     (case history of
        None \<Rightarrow> []
      | Some h \<Rightarrow>
          if h = [] then []
          else context_heading @
               join (ustr ''\<newline>'') (map context_line (enumerate 0 (last4 h))))"

definition build_prompt :: "pystr \<Rightarrow> pystr \<Rightarrow> pystr list option \<Rightarrow> pystr" where
  "build_prompt content query history =
     prompt_preamble @ start_delimiter @ content @ end_delimiter @ context_str history @
     prompt_query_label @ query @ prompt_instructions"

subsection \<open>\<^verbatim>\<open>_process_full_content\<close>\<close>

text \<open>
  The \<^verbatim>\<open>try\<close> statement of one attempt returns from the function, falls through to the
  retry logic below it, or lets an exception pass that none of its handlers catches.
\<close>

datatype attempt_result = Return "pystr option" | FallThrough | Propagate pyexn

definition blocked_message :: "pystr \<Rightarrow> pystr" where
  "blocked_message reason =
     warning_marker @
     ustr '' Error: Content generation blocked by safety settings or API policy. Reason: '' @
     reason"

definition quota_message :: "pyexn \<Rightarrow> pystr" where
  "quota_message e =
     warning_marker @
     ustr '' API Error: Resource limits exceeded. Please check your API quota. ('' @
     exn_str e @ ustr '')''"

definition api_error_message :: "pyexn \<Rightarrow> pystr" where
  "api_error_message e = warning_marker @ ustr '' API Error: '' @ exn_str e"

definition try_request :: "outcome \<Rightarrow> attempt_result" where
  "try_request out =
     (case out of
        Returned r \<Rightarrow>
          (case r of
             None \<Rightarrow> FallThrough
           | Some resp \<Rightarrow>
               if text_attr resp \<noteq> [] then Return (Some (strip (text_attr resp)))
               else
                 (case prompt_feedback resp of
                    Some (Blocked reason) \<Rightarrow> Return (Some (blocked_message reason))
                  | _ \<Rightarrow> FallThrough))
      | Raised e \<Rightarrow>
          if exn_cls e = ResourceExhausted then Return (Some (quota_message e))
          else if exn_cls e = DeadlineExceeded then FallThrough
          else if exn_cls e = ServiceUnavailable then FallThrough
          else if is_GoogleAPIError (exn_cls e) then Return (Some (api_error_message e))
          else if is_Exception (exn_cls e) then FallThrough
          else Propagate e)"

text \<open>
  The loop \<^verbatim>\<open>for attempt in range(self.max_retries)\<close>, from a given attempt on. The result
  is the value returned (\<open>Inr\<close>; \<open>None\<close> is Python's \<^verbatim>\<open>None\<close>) or the exception that
  leaves the function (\<open>Inl\<close>), with the effects so far.
\<close>

function attempts_from ::
  "analyzer \<Rightarrow> sleeper \<Rightarrow> endpoint \<Rightarrow> pystr \<Rightarrow> nat \<Rightarrow> trace \<Rightarrow>
     (pyexn + pystr option) \<times> trace" where
  "attempts_from a sl ep prompt attempt tr =
     (if int attempt < max_retries a then
        (let tr1 = tr\<lparr>requests := requests tr @ [prompt]\<rparr> in
         case try_request (ep attempt prompt) of
           Return v \<Rightarrow> (Inr v, tr1)
         | Propagate e \<Rightarrow> (Inl e, tr1)
         | FallThrough \<Rightarrow>
             if int attempt < max_retries a - 1 then
               (case time_sleep sl (retry_delay a * 2 ^ attempt) tr1 of
                  Inl e \<Rightarrow> (Inl e, tr1)
                | Inr tr2 \<Rightarrow> attempts_from a sl ep prompt (Suc attempt) tr2)
             else (Inr None, tr1))
      else (Inr None, tr))"
  by pat_completeness auto
termination
  by (relation "measure (\<lambda>(a, sl, ep, prompt, attempt, tr). nat (max_retries a - int attempt))")
     auto

definition truncate_content :: "pystr \<Rightarrow> pystr" where
  "truncate_content content =
     (if length content > MAX_CONTENT_LENGTH then take MAX_CONTENT_LENGTH content else content)"

definition process_full_content ::
  "analyzer \<Rightarrow> sleeper \<Rightarrow> endpoint \<Rightarrow> pystr \<Rightarrow> pystr \<Rightarrow> pystr list option \<Rightarrow>
     (pyexn + pystr option) \<times> trace" where
  "process_full_content a sl ep content query history =
     (let truncated_content = truncate_content content;
          prompt = build_prompt truncated_content query history
      in attempts_from a sl ep prompt 0 no_effects)"

subsection \<open>\<^verbatim>\<open>analyze_content\<close>\<close>

definition no_content_warning :: pystr where
  "no_content_warning =
     warning_marker @ ustr '' Error: No website content loaded or content is empty.''"

definition empty_query_warning :: pystr where
  "empty_query_warning = warning_marker @ ustr '' Error: Query cannot be empty.''"

definition analysis_failed_warning :: pystr where
  "analysis_failed_warning =
     warning_marker @
     ustr '' Analysis failed after multiple retries or returned no relevant content.''"

definition critical_error_message :: "pyexn \<Rightarrow> pystr" where
  "critical_error_message e =
     warning_marker @ ustr '' Critical Error during analysis: '' @ exn_str e"

text \<open>The body of the \<^verbatim>\<open>try\<close> statement of \<^verbatim>\<open>analyze_content\<close>.\<close>

definition analyze_body ::
  "analyzer \<Rightarrow> sleeper \<Rightarrow> endpoint \<Rightarrow> pystr \<Rightarrow> pystr \<Rightarrow> pystr list option \<Rightarrow>
     (pyexn + pystr) \<times> trace" where
  "analyze_body a sl ep full_content query chat_history =
     (if full_content = [] then (Inr no_content_warning, no_effects)
      else if query = [] then (Inr empty_query_warning, no_effects)
      else
        (case process_full_content a sl ep full_content query chat_history of
           (Inl e, tr) \<Rightarrow> (Inl e, tr)
         | (Inr None, tr) \<Rightarrow> (Inr analysis_failed_warning, tr)
         | (Inr (Some response_text), tr) \<Rightarrow>
             if response_text \<noteq> [] then (Inr response_text, tr)
             else (Inr analysis_failed_warning, tr)))"

text \<open>
  \<^verbatim>\<open>analyze_content\<close>: the body under \<^verbatim>\<open>except Exception\<close>. \<open>Inl\<close> is an exception that
  the handler does not catch and that reaches the caller.
\<close>

definition analyze_content ::
  "analyzer \<Rightarrow> sleeper \<Rightarrow> endpoint \<Rightarrow> pystr \<Rightarrow> pystr \<Rightarrow> pystr list option \<Rightarrow>
     (pyexn + pystr) \<times> trace" where
  "analyze_content a sl ep full_content query chat_history =
     (case analyze_body a sl ep full_content query chat_history of
        (Inl e, tr) \<Rightarrow>
          if is_Exception (exn_cls e) then (Inr (critical_error_message e), tr)
          else (Inl e, tr)
      | (Inr s, tr) \<Rightarrow> (Inr s, tr))"

section \<open>scrape.py: the text cleaner\<close>

subsection \<open>The parsed document\<close>

text \<open>
  The tree that \<^verbatim>\<open>BeautifulSoup(html, 'html.parser')\<close> builds. A \<open>NavigableString\<close> is a
  string of a class that \<^verbatim>\<open>get_text\<close> yields (text and CDATA sections); an \<open>OtherString\<close>
  is one it skips (comments, doctypes, declarations). A \<open>Tag\<close> carries the identity of
  its Python object, its name, its attributes and its contents. A document is the list
  of the top-level nodes.
\<close>

type_synonym tag_id = nat
type_synonym attrs = "(pystr \<times> pystr) list"

datatype node =
    NavigableString pystr
  | OtherString pystr
  | Tag tag_id pystr attrs "node list"

text \<open>
  The parts of the parsing library that are taken as given: the parser itself, and how
  the serializer writes a string node and the attributes of a start tag. The parser
  returns the document, or raises: \<^verbatim>\<open>html.parser\<close> rejects some markup with an
  exception, which the library passes on.
\<close>

record html_library =
  parse :: "pystr \<Rightarrow> pyexn + node list"
  string_markup :: "node \<Rightarrow> pystr"
  attrs_markup :: "attrs \<Rightarrow> pystr"




text \<open>
  \<^verbatim>\<open>soup(names)\<close>, that is \<^verbatim>\<open>soup.find_all(names)\<close>: every element, at any depth, whose
  name is in the list, in document order.
\<close>

fun find_all_in :: "pystr list \<Rightarrow> node \<Rightarrow> node list" where
  "find_all_in names (Tag i name as contents) =
     (if name \<in> set names then [Tag i name as contents] else []) @
     concat (map (find_all_in names) contents)"
| "find_all_in names (NavigableString s) = []"
| "find_all_in names (OtherString s) = []"

definition find_all :: "pystr list \<Rightarrow> node list \<Rightarrow> node list" where
  "find_all names soup = concat (map (find_all_in names) soup)"


text \<open>
  \<^verbatim>\<open>tag.decompose()\<close>: the element object \<open>tag\<close> is taken out of the tree with everything
  below it. An element that is no longer in the tree (it went with an ancestor) leaves
  the tree as it is.
\<close>

fun without :: "tag_id \<Rightarrow> node \<Rightarrow> node list" where
  "without i (Tag j name as contents) =
     (if j = i then [] else [Tag j name as (concat (map (without i) contents))])"
| "without i (NavigableString s) = [NavigableString s]"
| "without i (OtherString s) = [OtherString s]"

definition decompose :: "node \<Rightarrow> node list \<Rightarrow> node list" where
  "decompose t soup =
     (case t of Tag i name as contents \<Rightarrow> concat (map (without i) soup) | _ \<Rightarrow> soup)"

text \<open>
  \<^verbatim>\<open>soup.get_text(separator=sep, strip=True)\<close>: the text strings of the tree in document
  order, each stripped, the empty ones dropped, joined by the separator.
\<close>

fun all_strings :: "node \<Rightarrow> pystr list" where
  "all_strings (NavigableString s) = [s]"
| "all_strings (OtherString s) = []"
| "all_strings (Tag i name as contents) = concat (map all_strings contents)"

definition get_text :: "pystr \<Rightarrow> node list \<Rightarrow> pystr" where
  "get_text separator soup =
     join separator (filter (\<lambda>s. s \<noteq> []) (map strip (concat (map all_strings soup))))"

subsection \<open>\<^verbatim>\<open>extract_body_content\<close>\<close>

text \<open>
  The function has no handler, so an exception of the parser leaves it (\<open>Inl\<close>). Its
  effect besides the result is the log records it emits, which are returned with the
  result. An element object is always truthy, so the test on \<^verbatim>\<open>soup.body\<close> is whether a
  body element exists.
\<close>

datatype log_level = WARNING | INFO



subsection \<open>\<^verbatim>\<open>clean_body_content\<close>\<close>

definition denylist :: "pystr list" where
  "denylist = map ustr
     [''script'', ''style'', ''meta'', ''link'', ''header'', ''footer'', ''nav'', ''aside'',
      ''form'', ''button'', ''iframe'', ''noscript'']"

text \<open>The loop \<^verbatim>\<open>for tag in soup(names): tag.decompose()\<close>.\<close>

definition decompose_all :: "pystr list \<Rightarrow> node list \<Rightarrow> node list" where
  "decompose_all names soup = foldl (\<lambda>soup' t. decompose t soup') soup (find_all names soup)"

text \<open>
  The function has no handler either; its log records are not modelled.
\<close>

definition clean_body_content :: "html_library \<Rightarrow> pystr \<Rightarrow> pyexn + pystr" where
  "clean_body_content lib body_html =
     (if body_html = [] then Inr []
      else
        (case parse lib body_html of
           Inl e \<Rightarrow> Inl e
         | Inr parsed \<Rightarrow>
             (let soup = decompose_all denylist parsed;
                  text = get_text (ustr ''\<newline>'') soup
              in Inr (join (ustr ''\<newline>'')
                        (filter (\<lambda>line. strip line \<noteq> []) (splitlines text))))))"

section \<open>Notions of the specification and sample inputs\<close>

text \<open>
  The prompt that \<^verbatim>\<open>_process_full_content\<close> builds and sends: the content, cut to the
  budget, in the template.
\<close>

definition analysis_prompt :: "pystr \<Rightarrow> pystr \<Rightarrow> pystr list option \<Rightarrow> pystr" where
  "analysis_prompt content query history = build_prompt (truncate_content content) query history"

text \<open>
  A transient failure, in the words of the specification: a deadline or timeout, a
  service-unavailable condition, or an empty response that carries no block reason.
\<close>

definition transient_failure :: "outcome \<Rightarrow> bool" where
  "transient_failure out =
     (case out of
        Raised e \<Rightarrow> exn_cls e = DeadlineExceeded \<or> exn_cls e = ServiceUnavailable
      | Returned None \<Rightarrow> True
      | Returned (Some resp) \<Rightarrow>
          text_attr resp = [] \<and>
          (case prompt_feedback resp of Some (Blocked reason) \<Rightarrow> False | _ \<Rightarrow> True))"

text \<open>The backoff sleeps after the failed attempts \<open>j, \<dots>, k - 1\<close>.\<close>

definition backoff_sleeps :: "analyzer \<Rightarrow> nat \<Rightarrow> nat \<Rightarrow> int list" where
  "backoff_sleeps a j k = map (\<lambda>attempt. retry_delay a * 2 ^ attempt) [j..<k]"

text \<open>
  A genuine answer: the last request issued was answered by a response with non-empty
  text, and the string is that text stripped.
\<close>

definition answered_by_last_request :: "endpoint \<Rightarrow> pystr \<Rightarrow> trace \<Rightarrow> pystr \<Rightarrow> bool" where
  "answered_by_last_request ep prompt tr s \<longleftrightarrow>
     requests tr \<noteq> [] \<and>
     (case ep (length (requests tr) - 1) prompt of
        Returned (Some resp) \<Rightarrow> text_attr resp \<noteq> [] \<and> s = strip (text_attr resp)
      | _ \<Rightarrow> False)"

text \<open>
  A sample of \<^verbatim>\<open>time.sleep\<close>: \<^verbatim>\<open>ValueError\<close> on a negative duration, \<^verbatim>\<open>OverflowError\<close>
  on a duration whose nanoseconds do not fit the 64-bit time type, and a completed sleep
  otherwise. It is used at -5, 5, 10 and \<open>10 ^ 10\<close> seconds only; a platform may refuse
  durations below the bound as well.
\<close>

definition sample_sleep :: sleeper where
  "sample_sleep secs =
     (if secs < 0
      then Some \<lparr>exn_cls = ValueError, exn_str = ustr ''sleep length must be non-negative''\<rparr>
      else if 9223372036 < secs
      then Some \<lparr>exn_cls = OverflowError,
                  exn_str = ustr ''timestamp too large to convert to C _PyTime_t''\<rparr>
      else None)"

text \<open>
  Sample endpoints: quota exhaustion on every request; two timeouts, then an answer; an
  interrupt from the keyboard during the request.
\<close>

definition interrupted_endpoint :: endpoint where
  "interrupted_endpoint = (\<lambda>attempt prompt.
     Raised \<lparr>exn_cls = KeyboardInterrupt, exn_str = []\<rparr>)"

definition quota_endpoint :: endpoint where
  "quota_endpoint = (\<lambda>attempt prompt.
     Raised \<lparr>exn_cls = ResourceExhausted, exn_str = ustr ''429 quota exceeded''\<rparr>)"

definition two_timeouts_then :: "pystr \<Rightarrow> endpoint" where
  "two_timeouts_then answer = (\<lambda>attempt prompt.
     if attempt < 2 then Raised \<lparr>exn_cls = DeadlineExceeded, exn_str = ustr ''504 Deadline Exceeded''\<rparr>
     else Returned (Some \<lparr>text_attr = answer, prompt_feedback = None\<rparr>))"

text \<open>
  The document without the elements named in the list, subtrees included, as the
  specification describes the removal; and the text strings that have no such element
  above them.
\<close>

fun prune_in :: "pystr list \<Rightarrow> node \<Rightarrow> node list" where
  "prune_in names (Tag i name as contents) =
     (if name \<in> set names then [] else [Tag i name as (concat (map (prune_in names) contents))])"
| "prune_in names (NavigableString s) = [NavigableString s]"
| "prune_in names (OtherString s) = [OtherString s]"

definition prune :: "pystr list \<Rightarrow> node list \<Rightarrow> node list" where
  "prune names soup = concat (map (prune_in names) soup)"

fun visible_strings_in :: "pystr list \<Rightarrow> node \<Rightarrow> pystr list" where
  "visible_strings_in names (NavigableString s) = [s]"
| "visible_strings_in names (OtherString s) = []"
| "visible_strings_in names (Tag i name as contents) =
     (if name \<in> set names then [] else concat (map (visible_strings_in names) contents))"

definition visible_strings :: "pystr list \<Rightarrow> node list \<Rightarrow> pystr list" where
  "visible_strings names soup = concat (map (visible_strings_in names) soup)"

text \<open>The text strings that stand inside an element named in the list.\<close>

fun hidden_strings_in :: "pystr list \<Rightarrow> node \<Rightarrow> pystr list" where
  "hidden_strings_in names (NavigableString s) = []"
| "hidden_strings_in names (OtherString s) = []"
| "hidden_strings_in names (Tag i name as contents) =
     (if name \<in> set names then concat (map all_strings contents)
      else concat (map (hidden_strings_in names) contents))"

definition hidden_strings :: "pystr list \<Rightarrow> node list \<Rightarrow> pystr list" where
  "hidden_strings names soup = concat (map (hidden_strings_in names) soup)"

text \<open>
  The identity and the name of every element of a document. Distinct element objects
  have distinct identities.
\<close>

fun tags_in :: "node \<Rightarrow> (tag_id \<times> pystr) list" where
  "tags_in (Tag i name as contents) = (i, name) # concat (map tags_in contents)"
| "tags_in (NavigableString s) = []"
| "tags_in (OtherString s) = []"

definition tags :: "node list \<Rightarrow> (tag_id \<times> pystr) list" where
  "tags soup = concat (map tags_in soup)"

text \<open>Auxiliary: a document without the elements whose identity is in a set.\<close>

fun without_set :: "tag_id set \<Rightarrow> node \<Rightarrow> node list" where
  "without_set S (Tag j name as contents) =
     (if j \<in> S then [] else [Tag j name as (concat (map (without_set S) contents))])"
| "without_set S (NavigableString s) = [NavigableString s]"
| "without_set S (OtherString s) = [OtherString s]"

definition ids_of :: "node list \<Rightarrow> tag_id set" where
  "ids_of ts = {i. \<exists>name as contents. Tag i name as contents \<in> set ts}"

text \<open>
  \<^verbatim>\<open>clean_body_content(clean_body_content(x))\<close>: the second call runs on the result of
  the first, when the first returns.
\<close>

definition clean_twice :: "html_library \<Rightarrow> pystr \<Rightarrow> pyexn + pystr" where
  "clean_twice lib x =
     (case clean_body_content lib x of Inl e \<Rightarrow> Inl e | Inr y \<Rightarrow> clean_body_content lib y)"

text \<open>A line that \<open>clean_body_content\<close> keeps.\<close>

definition nonblank :: "pystr \<Rightarrow> bool" where
  "nonblank line \<longleftrightarrow> strip line \<noteq> []"

text \<open>
  The scenario of the specification: the page and the tree the parser builds for it.
\<close>

definition scenario_html :: pystr where
  "scenario_html = ustr ''<body><nav>Menu</nav><p>Hello <b>World</b></p></body>''"

definition scenario_body_contents :: "node list" where
  "scenario_body_contents =
     [Tag 1 (ustr ''nav'') [] [NavigableString (ustr ''Menu'')],
      Tag 2 (ustr ''p'') []
        [NavigableString (ustr ''Hello ''),
         Tag 3 (ustr ''b'') [] [NavigableString (ustr ''World'')]]]"

definition scenario_soup :: "node list" where
  "scenario_soup = [Tag 0 (ustr ''body'') [] scenario_body_contents]"

text \<open>
  A page whose navigation and whose paragraph hold the same text, and two pages with a
  marked section that \<^verbatim>\<open>html.parser\<close> (of Python 3.11) rejects; the second has no body
  element. The exception stands for the one the library raises; its message is abridged.
\<close>

definition repeated_text_html :: pystr where
  "repeated_text_html = ustr ''<nav>Hi</nav><p>Hi</p>''"

definition repeated_text_soup :: "node list" where
  "repeated_text_soup =
     [Tag 0 (ustr ''nav'') [] [NavigableString (ustr ''Hi'')],
      Tag 1 (ustr ''p'') [] [NavigableString (ustr ''Hi'')]]"

definition rejected_nav_html :: pystr where
  "rejected_nav_html = ustr ''<body><nav>Menu</nav><![x y]>z</body>''"

definition rejected_html :: pystr where
  "rejected_html = ustr ''<![foo]>''"

definition rejected_markup :: pyexn where
  "rejected_markup =
     \<lparr>exn_cls = ParserRejectedMarkup,
      exn_str = ustr ''The markup you provided was rejected by the parser.''\<rparr>"

text \<open>
  A sample of the library. The parser is given on seven inputs only, as \<^verbatim>\<open>html.parser\<close>
  reads them: the scenario page; the page with the repeated text; a text without
  markup, which is one text node; two texts with a character reference, which the
  parser decodes (\<^verbatim>\<open>&amp;\<close> to \<^verbatim>\<open>&\<close>, \<^verbatim>\<open>&lt;\<close> to \<^verbatim>\<open><\<close>); and the two pages it rejects.
  The sample strings and attributes need no escaping when they are serialized.
\<close>

definition sample_library :: html_library where
  "sample_library =
     \<lparr>parse = (\<lambda>html.
         if html = scenario_html then Inr scenario_soup
         else if html = repeated_text_html then Inr repeated_text_soup
         else if html = ustr ''Hello\<newline>World''
           then Inr [NavigableString (ustr ''Hello\<newline>World'')]
         else if html = ustr ''&amp;lt;'' then Inr [NavigableString (ustr ''&lt;'')]
         else if html = ustr ''&lt;'' then Inr [NavigableString (ustr ''<'')]
         else if html = rejected_nav_html then Inl rejected_markup
         else if html = rejected_html then Inl rejected_markup
         else Inr []),
      string_markup =
        (\<lambda>s. case s of NavigableString t \<Rightarrow> t | OtherString t \<Rightarrow> t | _ \<Rightarrow> []),
      attrs_markup =
        (\<lambda>as. concat (map (\<lambda>(k, v). ustr '' '' @ k @ ustr ''='' @ [34] @ v @ [34]) as))\<rparr>"

section \<open>Properties of the analyzer\<close>

declare attempts_from.simps [simp del]

lemma startswith_append: "startswith (p @ s) p"
  by (simp add: startswith_def)

lemma contains_appendI: "contains (pre @ p @ post) p"
proof -
  have "length pre \<in> set [0..<Suc (length (pre @ p @ post))]" by simp
  moreover have "take (length p) (drop (length pre) (pre @ p @ post)) = p" by simp
  ultimately show ?thesis unfolding contains_def by blast
qed

lemma startswith_marker [simp]: "startswith (warning_marker @ s) warning_marker"
  by (simp add: startswith_def)

lemma process_full_content_eq:
  "process_full_content a sl ep content query history =
   attempts_from a sl ep (analysis_prompt content query history) 0 no_effects"
  by (simp add: process_full_content_def analysis_prompt_def)

lemma transient_falls_through: "transient_failure out \<Longrightarrow> try_request out = FallThrough"
  by (auto simp: transient_failure_def try_request_def is_GoogleAPIError_def is_Exception_def
      split: outcome.splits option.splits block_reason.splits)

lemma attempts_from_Return:
  assumes "try_request (ep attempt prompt) = Return v"
  shows "attempts_from a sl ep prompt attempt tr =
     (if int attempt < max_retries a then (Inr v, tr\<lparr>requests := requests tr @ [prompt]\<rparr>)
      else (Inr None, tr))"
  using assms by (subst attempts_from.simps) simp

lemma attempts_from_Propagate:
  assumes "try_request (ep attempt prompt) = Propagate e"
  shows "attempts_from a sl ep prompt attempt tr =
     (if int attempt < max_retries a then (Inl e, tr\<lparr>requests := requests tr @ [prompt]\<rparr>)
      else (Inr None, tr))"
  using assms by (subst attempts_from.simps) simp

lemma attempts_from_FallThrough:
  assumes "try_request (ep attempt prompt) = FallThrough"
  shows "attempts_from a sl ep prompt attempt tr =
     (if int attempt < max_retries a then
        if int attempt < max_retries a - 1 then
          (case sl (retry_delay a * 2 ^ attempt) of
             Some e \<Rightarrow> (Inl e, tr\<lparr>requests := requests tr @ [prompt]\<rparr>)
           | None \<Rightarrow>
               attempts_from a sl ep prompt (Suc attempt)
                 (tr\<lparr>requests := requests tr @ [prompt],
                     sleeps := sleeps tr @ [retry_delay a * 2 ^ attempt]\<rparr>))
        else (Inr None, tr\<lparr>requests := requests tr @ [prompt]\<rparr>)
      else (Inr None, tr))"
  using assms
  by (subst attempts_from.simps) (simp add: time_sleep_def split: option.splits)

lemma attempts_from_skip:
  assumes "\<And>i. j \<le> i \<Longrightarrow> i < k \<Longrightarrow> try_request (ep i p) = FallThrough"
    and "int k < max_retries a"
    and "\<And>i. j \<le> i \<Longrightarrow> i < k \<Longrightarrow> sl (retry_delay a * 2 ^ i) = None"
    and "j \<le> k"
  shows "attempts_from a sl ep p j tr =
         attempts_from a sl ep p k
           (tr\<lparr>requests := requests tr @ replicate (k - j) p,
               sleeps := sleeps tr @ backoff_sleeps a j k\<rparr>)"
  using assms
proof (induction "k - j" arbitrary: j tr)
  case 0
  then show ?case by (simp add: backoff_sleeps_def)
next
  case (Suc n)
  then have jk: "j < k" by simp
  let ?tr = "tr\<lparr>requests := requests tr @ [p], sleeps := sleeps tr @ [retry_delay a * 2 ^ j]\<rparr>"
  have ft: "try_request (ep j p) = FallThrough" using Suc.prems(1) jk by simp
  have lt: "int j < max_retries a - 1" using jk Suc.prems(2) by simp
  have sl: "sl (retry_delay a * 2 ^ j) = None" using Suc.prems(3) jk by simp
  have step: "attempts_from a sl ep p j tr = attempts_from a sl ep p (Suc j) ?tr"
    unfolding attempts_from_FallThrough [where ep=ep and attempt=j and prompt=p, OF ft]
    using lt sl by simp
  have ih: "attempts_from a sl ep p (Suc j) ?tr =
      attempts_from a sl ep p k
        (?tr\<lparr>requests := requests ?tr @ replicate (k - Suc j) p,
             sleeps := sleeps ?tr @ backoff_sleeps a (Suc j) k\<rparr>)"
    using Suc.hyps(2) Suc.prems jk by (intro Suc.hyps(1)) auto
  have r: "[p] @ replicate (k - Suc j) p = replicate (k - j) p"
    using jk by (metis Cons_eq_appendI Suc_diff_Suc append_Nil replicate_Suc)
  have s: "[retry_delay a * 2 ^ j] @ backoff_sleeps a (Suc j) k = backoff_sleeps a j k"
    using jk by (simp add: backoff_sleeps_def upt_conv_Cons)
  show ?case using step ih r s by simp
qed

lemma attempts_from_success:
  assumes "int k < max_retries a" and "ep k p = Returned (Some r)" and "text_attr r \<noteq> []"
  shows "attempts_from a sl ep p k tr =
         (Inr (Some (strip (text_attr r))), tr\<lparr>requests := requests tr @ [p]\<rparr>)"
  using assms by (subst attempts_from.simps) (simp add: try_request_def)

lemma trace_eq:
  "no_effects\<lparr>requests := requests no_effects @ xs, sleeps := sleeps no_effects @ ys\<rparr>
   = \<lparr>requests = xs, sleeps = ys\<rparr>"
  by (simp add: no_effects_def)

lemma process_transient_then_text:
  assumes "int k < max_retries a"
    and "\<And>i. i < k \<Longrightarrow> sl (retry_delay a * 2 ^ i) = None"
    and "\<And>i. i < k \<Longrightarrow> transient_failure (ep i p)"
    and "ep k p = Returned (Some r)" and "text_attr r \<noteq> []"
  shows "attempts_from a sl ep p 0 no_effects =
         (Inr (Some (strip (text_attr r))),
          \<lparr>requests = replicate (Suc k) p, sleeps = backoff_sleeps a 0 k\<rparr>)"
proof -
  have "attempts_from a sl ep p 0 no_effects =
        attempts_from a sl ep p k \<lparr>requests = replicate k p, sleeps = backoff_sleeps a 0 k\<rparr>"
    using attempts_from_skip [of 0 k ep p a sl no_effects] assms(1-3)
    by (simp add: transient_falls_through trace_eq)
  also have "\<dots> = (Inr (Some (strip (text_attr r))),
       \<lparr>requests = replicate k p @ [p], sleeps = backoff_sleeps a 0 k\<rparr>)"
    using attempts_from_success [where ep=ep and p=p and k=k and a=a and r=r] assms(1,4,5)
    by simp
  finally show ?thesis by (simp add: replicate_append_same)
qed

lemma try_request_Return:
  assumes "try_request out = Return v"
  shows "\<exists>s. v = Some s \<and>
     (startswith s warning_marker \<or>
      (\<exists>resp. out = Returned (Some resp) \<and> text_attr resp \<noteq> [] \<and> s = strip (text_attr resp)))"
  using assms
  by (auto simp: try_request_def blocked_message_def quota_message_def api_error_message_def
      split: outcome.splits option.splits if_splits block_reason.splits)

lemma try_request_Propagate:
  assumes "try_request out = Propagate e"
  shows "out = Raised e \<and> \<not> is_Exception (exn_cls e)"
  using assms
  by (auto simp: try_request_def
      split: outcome.splits option.splits if_splits block_reason.splits)

lemma attempts_from_result:
  assumes "length (requests tr) = attempt"
    and "attempts_from a sl ep p attempt tr = (Inr (Some s), tr')"
  shows "startswith s warning_marker \<or> answered_by_last_request ep p tr' s"
  using assms
proof (induction a sl ep p attempt tr rule: attempts_from.induct)
  case (1 a sl ep prompt attempt tr)
  let ?tr1 = "tr\<lparr>requests := requests tr @ [prompt]\<rparr>"
  let ?tr2 = "tr\<lparr>requests := requests tr @ [prompt],
                 sleeps := sleeps tr @ [retry_delay a * 2 ^ attempt]\<rparr>"
  show ?case
  proof (cases "try_request (ep attempt prompt)")
    case (Return v)
    from "1.prems"(2) have v: "v = Some s" and tr': "tr' = ?tr1"
      unfolding attempts_from_Return [where ep=ep and attempt=attempt and prompt=prompt, OF Return]
      by (simp_all split: if_splits)
    from try_request_Return [OF Return] v
    have "startswith s warning_marker \<or>
        (\<exists>resp. ep attempt prompt = Returned (Some resp) \<and> text_attr resp \<noteq> [] \<and>
           s = strip (text_attr resp))" by simp
    then show ?thesis
      using tr' "1.prems"(1) by (auto simp: answered_by_last_request_def)
  next
    case (Propagate e)
    from "1.prems"(2) show ?thesis
      unfolding attempts_from_Propagate
        [where ep=ep and attempt=attempt and prompt=prompt, OF Propagate]
      by (simp split: if_splits)
  next
    case FallThrough
    from "1.prems"(2)
    have lt: "int attempt < max_retries a" and lt1: "int attempt < max_retries a - 1"
      and sl: "sl (retry_delay a * 2 ^ attempt) = None"
      and rec: "attempts_from a sl ep prompt (Suc attempt) ?tr2 = (Inr (Some s), tr')"
      unfolding attempts_from_FallThrough
        [where ep=ep and attempt=attempt and prompt=prompt, OF FallThrough]
      by (simp_all split: if_splits option.splits)
    have ts: "time_sleep sl (retry_delay a * 2 ^ attempt) ?tr1 = Inr ?tr2"
      using sl by (simp add: time_sleep_def)
    have len: "length (requests ?tr2) = Suc attempt" using "1.prems"(1) by simp
    show ?thesis
      using "1.IH" [OF lt refl FallThrough lt1 ts len rec] .
  qed
qed

lemma attempts_from_raises:
  assumes "attempts_from a sl ep p attempt tr = (Inl e, tr')"
  shows "(\<exists>i. ep i p = Raised e \<and> \<not> is_Exception (exn_cls e)) \<or> (\<exists>secs. sl secs = Some e)"
  using assms
proof (induction a sl ep p attempt tr rule: attempts_from.induct)
  case (1 a sl ep prompt attempt tr)
  let ?tr1 = "tr\<lparr>requests := requests tr @ [prompt]\<rparr>"
  let ?tr2 = "tr\<lparr>requests := requests tr @ [prompt],
                 sleeps := sleeps tr @ [retry_delay a * 2 ^ attempt]\<rparr>"
  show ?case
  proof (cases "try_request (ep attempt prompt)")
    case (Return v)
    from "1.prems" show ?thesis
      unfolding attempts_from_Return [where ep=ep and attempt=attempt and prompt=prompt, OF Return]
      by (simp split: if_splits)
  next
    case (Propagate e')
    from "1.prems" have "e' = e"
      unfolding attempts_from_Propagate
        [where ep=ep and attempt=attempt and prompt=prompt, OF Propagate]
      by (simp split: if_splits)
    with try_request_Propagate [OF Propagate] show ?thesis by blast
  next
    case FallThrough
    show ?thesis
    proof (cases "sl (retry_delay a * 2 ^ attempt)")
      case (Some e')
      from "1.prems" have "e' = e"
        unfolding attempts_from_FallThrough
          [where ep=ep and attempt=attempt and prompt=prompt, OF FallThrough]
        using Some by (simp split: if_splits)
      with Some show ?thesis by blast
    next
      case None
      from "1.prems"
      have lt: "int attempt < max_retries a" and lt1: "int attempt < max_retries a - 1"
        and rec: "attempts_from a sl ep prompt (Suc attempt) ?tr2 = (Inl e, tr')"
        unfolding attempts_from_FallThrough
          [where ep=ep and attempt=attempt and prompt=prompt, OF FallThrough]
        using None by (simp_all split: if_splits)
      have ts: "time_sleep sl (retry_delay a * 2 ^ attempt) ?tr1 = Inr ?tr2"
        using None by (simp add: time_sleep_def)
      show ?thesis
        using "1.IH" [OF lt refl FallThrough lt1 ts rec] .
    qed
  qed
qed

lemma attempts_from_requests:
  "set (requests (snd (attempts_from a sl ep p attempt tr))) \<subseteq> insert p (set (requests tr))"
proof (induction a sl ep p attempt tr rule: attempts_from.induct)
  case (1 a sl ep prompt attempt tr)
  let ?tr1 = "tr\<lparr>requests := requests tr @ [prompt]\<rparr>"
  let ?tr2 = "tr\<lparr>requests := requests tr @ [prompt],
                 sleeps := sleeps tr @ [retry_delay a * 2 ^ attempt]\<rparr>"
  show ?case
  proof (cases "try_request (ep attempt prompt)")
    case (Return v)
    show ?thesis
      unfolding attempts_from_Return [where ep=ep and attempt=attempt and prompt=prompt, OF Return]
      by auto
  next
    case (Propagate e)
    show ?thesis
      unfolding attempts_from_Propagate
        [where ep=ep and attempt=attempt and prompt=prompt, OF Propagate]
      by auto
  next
    case FallThrough
    show ?thesis
    proof (cases "int attempt < max_retries a \<and> int attempt < max_retries a - 1 \<and>
                  sl (retry_delay a * 2 ^ attempt) = None")
      case True
      then have ts: "time_sleep sl (retry_delay a * 2 ^ attempt) ?tr1 = Inr ?tr2"
        by (simp add: time_sleep_def)
      from True have "set (requests (snd (attempts_from a sl ep prompt (Suc attempt) ?tr2)))
          \<subseteq> insert prompt (set (requests ?tr2))"
        using "1.IH" [OF _ refl FallThrough _ ts] by simp
      then show ?thesis
        unfolding attempts_from_FallThrough
          [where ep=ep and attempt=attempt and prompt=prompt, OF FallThrough]
        using True by auto
    next
      case False
      then show ?thesis
        unfolding attempts_from_FallThrough
          [where ep=ep and attempt=attempt and prompt=prompt, OF FallThrough]
        by (auto split: option.splits)
    qed
  qed
qed

lemma analyze_content_requests:
  "set (requests (snd (analyze_content a sl ep content query history)))
     \<subseteq> {analysis_prompt content query history}"
proof -
  have "set (requests (snd (process_full_content a sl ep content query history)))
     \<subseteq> {analysis_prompt content query history}"
    using attempts_from_requests [of a sl ep "analysis_prompt content query history" 0 no_effects]
    by (simp add: process_full_content_eq no_effects_def)
  then show ?thesis
    by (auto simp: analyze_content_def analyze_body_def no_effects_def
        split: prod.splits sum.splits option.splits if_splits)
qed

lemma map_enumerate_nth:
  "map f (enumerate 0 xs) = map (\<lambda>i. f (i, xs ! i)) [0..<length xs]"
  by (rule nth_equalityI) (simp_all add: nth_enumerate_eq)

lemma strip_answer: "strip (ustr '' It is a page. '') = ustr ''It is a page.''"
  by (simp add: strip_def ustr_def isspace_def)

lemma sample_inputs_nonempty: "ustr ''page text'' \<noteq> []" "ustr ''What is this?'' \<noteq> []"
  by (simp_all add: ustr_def)

text \<open>
  C1, as amended. Content and query are non-empty, the attempts \<open>0, \<dots>, k - 1\<close> fail
  transiently, the backoff sleep after each of them completes (\<^verbatim>\<open>time.sleep\<close> accepts
  the duration \<open>retry_delay * 2 ^ attempt\<close>), and attempt \<open>k\<close>, below \<open>max_retries\<close>, is
  answered by a response with non-empty text. Then \<open>analyze_content\<close> issues exactly
  \<open>k + 1\<close> requests, all with the analysis prompt, and sleeps \<open>retry_delay * 2 ^ attempt\<close>
  after each of the \<open>k\<close> failed attempts; it returns the response's text stripped of
  surrounding whitespace when that is non-empty, and the analysis-failed warning when the
  text is whitespace only.
\<close>

theorem C1_transient_failures_then_text:
  assumes "full_content \<noteq> []" and "query \<noteq> []"
    and "int k < max_retries a"
    and "\<And>i. i < k \<Longrightarrow> sl (retry_delay a * 2 ^ i) = None"
    and "\<And>i. i < k \<Longrightarrow> transient_failure (ep i (analysis_prompt full_content query history))"
    and "ep k (analysis_prompt full_content query history) = Returned (Some r)"
    and "text_attr r \<noteq> []"
  shows "analyze_content a sl ep full_content query history =
           (Inr (if strip (text_attr r) \<noteq> [] then strip (text_attr r)
                 else analysis_failed_warning),
            \<lparr>requests = replicate (Suc k) (analysis_prompt full_content query history),
             sleeps = map (\<lambda>attempt. retry_delay a * 2 ^ attempt) [0..<k]\<rparr>)"
  using assms(1,2)
    process_transient_then_text
      [where ep=ep and p="analysis_prompt full_content query history" and k=k and a=a and r=r
         and sl=sl]
    assms(3-7)
  by (simp add: analyze_content_def analyze_body_def process_full_content_eq backoff_sleeps_def)

text \<open>
  The defaults, two timeouts and then an answer: three requests, sleeps of 5 and 10
  seconds, and the stripped answer.
\<close>

theorem C1_transient_failures_then_text_witness:
  "analyze_content default_analyzer sample_sleep (two_timeouts_then (ustr '' It is a page. ''))
     (ustr ''page text'') (ustr ''What is this?'') None =
   (Inr (ustr ''It is a page.''),
    \<lparr>requests = replicate 3 (analysis_prompt (ustr ''page text'') (ustr ''What is this?'') None),
     sleeps = [5, 10]\<rparr>)"
proof -
  let ?p = "analysis_prompt (ustr ''page text'') (ustr ''What is this?'') None"
  let ?r = "\<lparr>text_attr = ustr '' It is a page. '', prompt_feedback = None\<rparr>"
  have 2: "int 2 < max_retries default_analyzer"
    by (simp add: default_analyzer_def)
  have 8: "\<And>i. i < 2 \<Longrightarrow> sample_sleep (retry_delay default_analyzer * 2 ^ i) = None"
  proof -
    fix i :: nat assume "i < 2"
    then have "i = 0 \<or> i = 1" by auto
    then show "sample_sleep (retry_delay default_analyzer * 2 ^ i) = None"
      by (auto simp: sample_sleep_def default_analyzer_def)
  qed
  have 3: "\<And>i. i < 2 \<Longrightarrow> transient_failure (two_timeouts_then (ustr '' It is a page. '') i ?p)"
    by (simp add: two_timeouts_then_def transient_failure_def)
  have 4: "two_timeouts_then (ustr '' It is a page. '') 2 ?p = Returned (Some ?r)"
    by (simp add: two_timeouts_then_def)
  have 5: "text_attr ?r \<noteq> []" by (simp add: ustr_def)
  have 6: "map (\<lambda>attempt. retry_delay default_analyzer * 2 ^ attempt) [0..<2] = [5, 10]"
    by (simp add: default_analyzer_def upt_rec)
  have 7: "ustr ''It is a page.'' \<noteq> []" by (simp add: ustr_def)
  show ?thesis
    using C1_transient_failures_then_text
      [where ep="two_timeouts_then (ustr '' It is a page. '')" and k=2 and r="?r"
         and a=default_analyzer and full_content="ustr ''page text''"
         and query="ustr ''What is this?''" and history=None and sl=sample_sleep]
      sample_inputs_nonempty 2 8 3 4 5 6 7
    by (simp add: strip_answer numeral_3_eq_3 numeral_2_eq_2)
qed

text \<open>
  C1 as stated fails in three places. A response whose non-empty text is a single space,
  after two timeouts: the result is the analysis-failed warning, not the stripped text.
  A negative \<open>retry_delay\<close>, and one of \<open>10 ^ 10\<close> seconds: the sleep after the first
  timeout raises, the result is the critical-error message and only one request is made.
\<close>

theorem C1_counterexample:
  "text_attr \<lparr>text_attr = ustr '' '', prompt_feedback = None\<rparr> \<noteq> []
   \<and> fst (analyze_content default_analyzer sample_sleep (two_timeouts_then (ustr '' ''))
          (ustr ''page text'') (ustr ''What is this?'') None)
       \<noteq> Inr (strip (ustr '' ''))
   \<and> fst (analyze_content default_analyzer sample_sleep (two_timeouts_then (ustr '' ''))
          (ustr ''page text'') (ustr ''What is this?'') None)
       = Inr analysis_failed_warning
   \<and> analyze_content \<lparr>max_retries = 3, retry_delay = - 5\<rparr> sample_sleep
          (two_timeouts_then (ustr ''ok'')) (ustr ''page text'') (ustr ''What is this?'') None
       = (Inr (critical_error_message
                \<lparr>exn_cls = ValueError, exn_str = ustr ''sleep length must be non-negative''\<rparr>),
          \<lparr>requests = [analysis_prompt (ustr ''page text'') (ustr ''What is this?'') None],
           sleeps = []\<rparr>)
   \<and> analyze_content \<lparr>max_retries = 3, retry_delay = 10 ^ 10\<rparr> sample_sleep
          (two_timeouts_then (ustr ''ok'')) (ustr ''page text'') (ustr ''What is this?'') None
       = (Inr (critical_error_message
                \<lparr>exn_cls = OverflowError,
                 exn_str = ustr ''timestamp too large to convert to C _PyTime_t''\<rparr>),
          \<lparr>requests = [analysis_prompt (ustr ''page text'') (ustr ''What is this?'') None],
           sleeps = []\<rparr>)"
proof -
  let ?p = "analysis_prompt (ustr ''page text'') (ustr ''What is this?'') None"
  let ?r = "\<lparr>text_attr = ustr '' '', prompt_feedback = None\<rparr>"
  note 1 = sample_inputs_nonempty
  have 2: "int 2 < max_retries default_analyzer"
    by (simp add: default_analyzer_def)
  have 8: "\<And>i. i < 2 \<Longrightarrow> sample_sleep (retry_delay default_analyzer * 2 ^ i) = None"
  proof -
    fix i :: nat assume "i < 2"
    then have "i = 0 \<or> i = 1" by auto
    then show "sample_sleep (retry_delay default_analyzer * 2 ^ i) = None"
      by (auto simp: sample_sleep_def default_analyzer_def)
  qed
  have 3: "\<And>i. i < 2 \<Longrightarrow> transient_failure (two_timeouts_then (ustr '' '') i ?p)"
    by (simp add: two_timeouts_then_def transient_failure_def)
  have 4: "two_timeouts_then (ustr '' '') 2 ?p = Returned (Some ?r)"
    by (simp add: two_timeouts_then_def)
  have 5: "text_attr ?r \<noteq> []" by (simp add: ustr_def)
  have s: "strip (ustr '' '') = []" by (simp add: strip_def ustr_def isspace_def)
  have w: "analysis_failed_warning \<noteq> []"
    by (simp add: analysis_failed_warning_def warning_marker_def)
  have a: "fst (analyze_content default_analyzer sample_sleep (two_timeouts_then (ustr '' ''))
          (ustr ''page text'') (ustr ''What is this?'') None) = Inr analysis_failed_warning"
    using process_transient_then_text
      [where ep="two_timeouts_then (ustr '' '')" and k=2 and r="?r" and a=default_analyzer
         and p="?p" and sl=sample_sleep] 1 2 8 3 4 5
    by (simp add: analyze_content_def analyze_body_def process_full_content_eq s)
  have ft: "try_request (two_timeouts_then (ustr ''ok'') 0 ?p) = FallThrough"
    by (simp add: two_timeouts_then_def try_request_def is_GoogleAPIError_def is_Exception_def)
  have b: "attempts_from \<lparr>max_retries = 3, retry_delay = - 5\<rparr> sample_sleep
        (two_timeouts_then (ustr ''ok'')) ?p 0 no_effects
      = (Inl \<lparr>exn_cls = ValueError, exn_str = ustr ''sleep length must be non-negative''\<rparr>,
         \<lparr>requests = [?p], sleeps = []\<rparr>)"
    unfolding attempts_from_FallThrough
      [where ep="two_timeouts_then (ustr ''ok'')" and attempt=0 and prompt="?p", OF ft]
    by (simp add: sample_sleep_def no_effects_def)
  have c: "analyze_content \<lparr>max_retries = 3, retry_delay = - 5\<rparr> sample_sleep
          (two_timeouts_then (ustr ''ok'')) (ustr ''page text'') (ustr ''What is this?'') None
       = (Inr (critical_error_message
               \<lparr>exn_cls = ValueError, exn_str = ustr ''sleep length must be non-negative''\<rparr>),
          \<lparr>requests = [?p], sleeps = []\<rparr>)"
    using 1 b
    by (simp add: analyze_content_def analyze_body_def process_full_content_eq is_Exception_def)
  have d: "attempts_from \<lparr>max_retries = 3, retry_delay = 10 ^ 10\<rparr> sample_sleep
        (two_timeouts_then (ustr ''ok'')) ?p 0 no_effects
      = (Inl \<lparr>exn_cls = OverflowError,
              exn_str = ustr ''timestamp too large to convert to C _PyTime_t''\<rparr>,
         \<lparr>requests = [?p], sleeps = []\<rparr>)"
    unfolding attempts_from_FallThrough
      [where ep="two_timeouts_then (ustr ''ok'')" and attempt=0 and prompt="?p", OF ft]
    by (simp add: sample_sleep_def no_effects_def)
  have e: "analyze_content \<lparr>max_retries = 3, retry_delay = 10 ^ 10\<rparr> sample_sleep
          (two_timeouts_then (ustr ''ok'')) (ustr ''page text'') (ustr ''What is this?'') None
       = (Inr (critical_error_message
                \<lparr>exn_cls = OverflowError,
                 exn_str = ustr ''timestamp too large to convert to C _PyTime_t''\<rparr>),
          \<lparr>requests = [?p], sleeps = []\<rparr>)"
    using 1 d
    by (simp add: analyze_content_def analyze_body_def process_full_content_eq is_Exception_def)
  show ?thesis using 5 a c e s w by simp
qed

text \<open>
  C2. The prompt sent embeds, between the start and end delimiters, the content cut to the
  budget: exactly the first 700000 characters when the content is longer than 700000, the
  content unmodified otherwise; and every request \<open>analyze_content\<close> issues carries this
  prompt.
\<close>

theorem C2_prompt_embeds_truncated_content:
  "analysis_prompt content query history =
     prompt_preamble @ start_delimiter @ truncate_content content @ end_delimiter @
     context_str history @ prompt_query_label @ query @ prompt_instructions
   \<and> (700000 < length content \<longrightarrow>
        truncate_content content = take 700000 content \<and>
        length (truncate_content content) = 700000)
   \<and> (length content \<le> 700000 \<longrightarrow> truncate_content content = content)
   \<and> (\<forall>p \<in> set (requests (snd (analyze_content a sl ep content query history))).
        p = analysis_prompt content query history)"
proof -
  have 1: "analysis_prompt content query history =
     prompt_preamble @ start_delimiter @ truncate_content content @ end_delimiter @
     context_str history @ prompt_query_label @ query @ prompt_instructions"
    by (simp add: analysis_prompt_def build_prompt_def)
  have 2: "700000 < length content \<longrightarrow>
        truncate_content content = take 700000 content \<and>
        length (truncate_content content) = 700000"
    by (simp add: truncate_content_def MAX_CONTENT_LENGTH_def)
  have 3: "length content \<le> 700000 \<longrightarrow> truncate_content content = content"
    by (simp add: truncate_content_def MAX_CONTENT_LENGTH_def)
  have 4: "\<forall>p \<in> set (requests (snd (analyze_content a sl ep content query history))).
        p = analysis_prompt content query history"
    using analyze_content_requests [of a sl ep content query history] by blast
  from 1 2 3 4 show ?thesis by blast
qed

theorem C2_prompt_embeds_truncated_content_witness:
  "700000 < length (replicate 700001 (97::nat) @ [98])
   \<and> truncate_content (replicate 700001 97 @ [98]) = replicate 700000 97
   \<and> length (ustr ''page text'') \<le> 700000
   \<and> truncate_content (ustr ''page text'') = ustr ''page text''
   \<and> analysis_prompt (ustr ''page text'') (ustr ''What is this?'') None
        \<in> set (requests (snd (analyze_content default_analyzer sample_sleep quota_endpoint
             (ustr ''page text'') (ustr ''What is this?'') None)))"
proof -
  let ?p = "analysis_prompt (ustr ''page text'') (ustr ''What is this?'') None"
  have a: "700000 < length (replicate 700001 (97::nat) @ [98])" by simp
  have b: "length (ustr ''page text'') \<le> 700000" by (simp add: ustr_def)
  have c: "take 700000 (replicate 700001 (97::nat) @ [98]) = replicate 700000 97" by simp
  have q: "try_request (quota_endpoint 0 ?p) =
      Return (Some (quota_message
        \<lparr>exn_cls = ResourceExhausted, exn_str = ustr ''429 quota exceeded''\<rparr>))"
    by (simp add: quota_endpoint_def try_request_def)
  have "requests (snd (analyze_content default_analyzer sample_sleep quota_endpoint
             (ustr ''page text'') (ustr ''What is this?'') None)) \<noteq> []"
    using sample_inputs_nonempty
    by (simp add: analyze_content_def analyze_body_def process_full_content_eq
        attempts_from_Return [where ep=quota_endpoint and attempt=0 and prompt="?p", OF q]
        default_analyzer_def quota_message_def warning_marker_def)
  then obtain p where p: "p \<in> set (requests (snd (analyze_content default_analyzer
      sample_sleep quota_endpoint (ustr ''page text'') (ustr ''What is this?'') None)))"
    by (meson last_in_set)
  from C2_prompt_embeds_truncated_content
    [where content="replicate 700001 97 @ [98]" and query="ustr ''q''" and history=None
       and a=default_analyzer and sl=sample_sleep and ep=quota_endpoint]
    a c
  have d: "truncate_content (replicate 700001 97 @ [98]) = replicate 700000 97" by simp
  from C2_prompt_embeds_truncated_content
    [where content="ustr ''page text''" and query="ustr ''What is this?''" and history=None
       and a=default_analyzer and sl=sample_sleep and ep=quota_endpoint]
    b p
  have e: "truncate_content (ustr ''page text'') = ustr ''page text''"
    and f: "p = analysis_prompt (ustr ''page text'') (ustr ''What is this?'') None"
    by blast+
  from a b d e f p show ?thesis by blast
qed

text \<open>
  C3. Content and query are non-empty and the first request (there is one when
  \<open>max_retries\<close> is positive) raises \<open>ResourceExhausted\<close>: \<open>analyze_content\<close> returns the
  quota message, which starts with the warning marker, after exactly one request and
  without any sleep.
\<close>

theorem C3_quota_exhaustion_not_retried:
  assumes "full_content \<noteq> []" and "query \<noteq> []" and "0 < max_retries a"
    and "ep 0 (analysis_prompt full_content query history) = Raised e"
    and "exn_cls e = ResourceExhausted"
  shows "analyze_content a sl ep full_content query history =
           (Inr (quota_message e),
            \<lparr>requests = [analysis_prompt full_content query history], sleeps = []\<rparr>)
         \<and> startswith (quota_message e) warning_marker"
proof -
  have "attempts_from a sl ep (analysis_prompt full_content query history) 0 no_effects =
        (Inr (Some (quota_message e)),
         \<lparr>requests = [analysis_prompt full_content query history], sleeps = []\<rparr>)"
    using assms(3-5)
    by (subst attempts_from.simps) (simp add: try_request_def no_effects_def)
  moreover have "quota_message e \<noteq> []"
    by (simp add: quota_message_def warning_marker_def)
  ultimately show ?thesis
    using assms(1,2)
    by (simp add: analyze_content_def analyze_body_def process_full_content_eq quota_message_def)
qed

theorem C3_quota_exhaustion_not_retried_witness:
  "analyze_content default_analyzer sample_sleep quota_endpoint
     (ustr ''page text'') (ustr ''What is this?'') None =
     (Inr (quota_message \<lparr>exn_cls = ResourceExhausted, exn_str = ustr ''429 quota exceeded''\<rparr>),
      \<lparr>requests = [analysis_prompt (ustr ''page text'') (ustr ''What is this?'') None],
       sleeps = []\<rparr>)"
proof -
  have "0 < max_retries default_analyzer"
    by (simp add: default_analyzer_def)
  moreover have "quota_endpoint 0 (analysis_prompt (ustr ''page text'') (ustr ''What is this?'') None) =
      Raised \<lparr>exn_cls = ResourceExhausted, exn_str = ustr ''429 quota exceeded''\<rparr>"
    by (simp add: quota_endpoint_def)
  ultimately show ?thesis
    using C3_quota_exhaustion_not_retried
      [where full_content="ustr ''page text''" and query="ustr ''What is this?''"
         and a=default_analyzer and ep=quota_endpoint and history=None and sl=sample_sleep
         and e="\<lparr>exn_cls = ResourceExhausted, exn_str = ustr ''429 quota exceeded''\<rparr>"]
      sample_inputs_nonempty
    by simp
qed

text \<open>
  C4, as amended. Every exception that the request or \<^verbatim>\<open>time.sleep\<close> raises is an
  instance of \<^verbatim>\<open>Exception\<close>. Then, for every analyzer, content, query and history,
  \<open>analyze_content\<close> returns a string (no exception reaches the caller), and the string
  starts with the warning marker unless it is a genuine answer: the stripped non-empty
  text of the response to the last request issued. So every result of a failure path
  (invalid input, categorical API error, safety block, exhausted retries, internal fault)
  carries the marker.
\<close>

theorem C4_always_a_string_failures_marked:
  assumes "\<And>attempt e. ep attempt (analysis_prompt full_content query history) = Raised e \<Longrightarrow>
             is_Exception (exn_cls e)"
    and "\<And>secs e. sl secs = Some e \<Longrightarrow> is_Exception (exn_cls e)"
  shows "\<exists>s tr. analyze_content a sl ep full_content query history = (Inr s, tr) \<and>
      (startswith s warning_marker \<or>
       answered_by_last_request ep (analysis_prompt full_content query history) tr s)"
proof -
  obtain res tr where p: "process_full_content a sl ep full_content query history = (res, tr)"
    by (cases "process_full_content a sl ep full_content query history")
  show ?thesis
  proof (cases "full_content = [] \<or> query = []")
    case True
    then show ?thesis
      by (auto simp: analyze_content_def analyze_body_def no_content_warning_def
          empty_query_warning_def)
  next
    case False
    show ?thesis
    proof (cases res)
      case (Inl e)
      from p Inl have "attempts_from a sl ep (analysis_prompt full_content query history) 0
          no_effects = (Inl e, tr)"
        by (simp add: process_full_content_eq)
      from attempts_from_raises [OF this] assms have "is_Exception (exn_cls e)" by blast
      with p Inl False show ?thesis
        by (simp add: analyze_content_def analyze_body_def critical_error_message_def)
    next
      case (Inr v)
      show ?thesis
      proof (cases v)
        case None
        with p Inr False show ?thesis
          by (simp add: analyze_content_def analyze_body_def analysis_failed_warning_def)
      next
        case (Some s)
        have "length (requests no_effects) = 0" by (simp add: no_effects_def)
        from attempts_from_result [OF this] p Inr Some
        have "startswith s warning_marker \<or>
          answered_by_last_request ep (analysis_prompt full_content query history) tr s"
          by (simp add: process_full_content_eq)
        with p Inr Some False show ?thesis
          by (simp add: analyze_content_def analyze_body_def analysis_failed_warning_def)
      qed
    qed
  qed
qed

text \<open>
  An endpoint that raises only timeouts and a sleep that raises \<^verbatim>\<open>ValueError\<close>: the
  result is the critical-error message, which carries the marker.
\<close>

theorem C4_always_a_string_failures_marked_witness:
  "\<exists>s tr. analyze_content \<lparr>max_retries = 3, retry_delay = - 5\<rparr> sample_sleep
       (two_timeouts_then (ustr ''ok'')) (ustr ''page text'') (ustr ''What is this?'') None
     = (Inr s, tr) \<and>
     (startswith s warning_marker \<or>
      answered_by_last_request (two_timeouts_then (ustr ''ok''))
        (analysis_prompt (ustr ''page text'') (ustr ''What is this?'') None) tr s)"
proof (rule C4_always_a_string_failures_marked)
  fix attempt e
  assume "two_timeouts_then (ustr ''ok'') attempt
      (analysis_prompt (ustr ''page text'') (ustr ''What is this?'') None) = Raised e"
  then show "is_Exception (exn_cls e)"
    by (auto simp: two_timeouts_then_def is_Exception_def split: if_splits)
next
  fix secs e
  assume "sample_sleep secs = Some e"
  then show "is_Exception (exn_cls e)"
    by (auto simp: sample_sleep_def is_Exception_def split: if_splits)
qed

text \<open>
  C4 as stated fails for an exception outside \<^verbatim>\<open>Exception\<close>: when the request is
  interrupted from the keyboard, neither handler catches the \<^verbatim>\<open>KeyboardInterrupt\<close> and
  it leaves \<open>analyze_content\<close> after the one request.
\<close>

theorem C4_counterexample:
  "analyze_content default_analyzer sample_sleep interrupted_endpoint
     (ustr ''page text'') (ustr ''What is this?'') None =
     (Inl \<lparr>exn_cls = KeyboardInterrupt, exn_str = []\<rparr>,
      \<lparr>requests = [analysis_prompt (ustr ''page text'') (ustr ''What is this?'') None],
       sleeps = []\<rparr>)"
proof -
  let ?p = "analysis_prompt (ustr ''page text'') (ustr ''What is this?'') None"
  have pr: "try_request (interrupted_endpoint 0 ?p) =
      Propagate \<lparr>exn_cls = KeyboardInterrupt, exn_str = []\<rparr>"
    by (simp add: interrupted_endpoint_def try_request_def is_GoogleAPIError_def
        is_Exception_def)
  show ?thesis
    using sample_inputs_nonempty
    by (simp add: analyze_content_def analyze_body_def process_full_content_eq
        attempts_from_Propagate [where ep=interrupted_endpoint and attempt=0 and prompt="?p", OF pr]
        default_analyzer_def no_effects_def is_Exception_def)
qed

text \<open>
  C5. With empty content, for every query and history, \<open>analyze_content\<close> returns the
  warning that starts with the marker and contains "No website content", and issues no
  request to the endpoint; so does the call with the query "What is this?" and the empty
  history. With non-empty content and an empty query it returns the warning that starts
  with the marker and says the query cannot be empty, again with no request.
\<close>

theorem C5_empty_input_warnings:
  "analyze_content a sl ep [] query history = (Inr no_content_warning, no_effects)
   \<and> analyze_content a sl ep [] (ustr ''What is this?'') (Some []) = (Inr no_content_warning, no_effects)
   \<and> (content \<noteq> [] \<longrightarrow>
        analyze_content a sl ep content [] history = (Inr empty_query_warning, no_effects))
   \<and> requests no_effects = []
   \<and> startswith no_content_warning warning_marker
   \<and> contains no_content_warning (ustr ''No website content'')
   \<and> startswith empty_query_warning warning_marker
   \<and> contains empty_query_warning (ustr ''Query cannot be empty'')"
proof -
  have 1: "\<And>q h. analyze_content a sl ep [] q h = (Inr no_content_warning, no_effects)"
    by (simp add: analyze_content_def analyze_body_def)
  have 2: "content \<noteq> [] \<longrightarrow>
        analyze_content a sl ep content [] history = (Inr empty_query_warning, no_effects)"
    by (simp add: analyze_content_def analyze_body_def)
  have 3: "requests no_effects = []" by (simp add: no_effects_def)
  have 4: "startswith no_content_warning warning_marker"
    by (simp add: no_content_warning_def)
  have "no_content_warning =
      (warning_marker @ ustr '' Error: '') @ ustr ''No website content'' @
      ustr '' loaded or content is empty.''"
    by (simp add: no_content_warning_def ustr_def)
  then have 5: "contains no_content_warning (ustr ''No website content'')"
    using contains_appendI by metis
  have 6: "startswith empty_query_warning warning_marker"
    by (simp add: empty_query_warning_def)
  have "empty_query_warning =
      (warning_marker @ ustr '' Error: '') @ ustr ''Query cannot be empty'' @ ustr ''.''"
    by (simp add: empty_query_warning_def ustr_def)
  then have 7: "contains empty_query_warning (ustr ''Query cannot be empty'')"
    using contains_appendI by metis
  from 1 2 3 4 5 6 7 show ?thesis by blast
qed

theorem C5_empty_input_warnings_witness:
  "analyze_content default_analyzer sample_sleep (\<lambda>n p. Returned None) (ustr ''page text'') [] None =
     (Inr empty_query_warning, no_effects)
   \<and> ustr ''page text'' \<noteq> []"
proof -
  have ne: "ustr ''page text'' \<noteq> []" by (simp add: ustr_def)
  from C5_empty_input_warnings
    [where a=default_analyzer and sl=sample_sleep and ep="\<lambda>n p. Returned None"
       and query="[]" and history=None and content="ustr ''page text''"]
  show ?thesis using ne by blast
qed

text \<open>
  C9. For a non-empty history the context section of the prompt is the heading
  "Previous Conversation Context" followed by one line for each of the last four entries
  (all entries when there are fewer), labelled "User: " at the even and "Assistant: " at
  the odd positions of that window, whatever the entry's role. For an absent or empty
  history the section is empty, and the prompt has nothing between the end delimiter and
  the query label.
\<close>

theorem C9_history_context_section:
  "(history \<noteq> [] \<longrightarrow>
      context_str (Some history) =
        ustr ''\<newline>Previous Conversation Context:\<newline>'' @
        join (ustr ''\<newline>'')
          (map (\<lambda>i. (if even i then ustr ''User'' else ustr ''Assistant'') @ ustr '': '' @
                     last4 history ! i)
               [0..<length (last4 history)])
      \<and> length (last4 history) = min 4 (length history)
      \<and> take (length history - 4) history @ last4 history = history)
   \<and> context_str None = []
   \<and> context_str (Some []) = []
   \<and> build_prompt content query h =
       prompt_preamble @ start_delimiter @ content @ end_delimiter @ context_str h @
       prompt_query_label @ query @ prompt_instructions"
proof -
  have "context_str (Some history) =
        ustr ''\<newline>Previous Conversation Context:\<newline>'' @
        join (ustr ''\<newline>'')
          (map (\<lambda>i. (if even i then ustr ''User'' else ustr ''Assistant'') @ ustr '': '' @
                     last4 history ! i)
               [0..<length (last4 history)])" if "history \<noteq> []"
    using that
    by (simp add: context_str_def context_heading_def map_enumerate_nth context_line_def
        even_iff_mod_2_eq_zero)
  moreover have "length (last4 history) = min 4 (length history)"
    by (simp add: last4_def)
  moreover have "take (length history - 4) history @ last4 history = history"
    by (simp add: last4_def)
  moreover have "context_str None = []" "context_str (Some []) = []"
    by (simp_all add: context_str_def)
  moreover have "build_prompt content query h =
       prompt_preamble @ start_delimiter @ content @ end_delimiter @ context_str h @
       prompt_query_label @ query @ prompt_instructions"
    by (simp add: build_prompt_def)
  ultimately show ?thesis by blast
qed

theorem C9_history_context_section_witness:
  "[ustr ''q1'', ustr ''a1'', ustr ''q2'', ustr ''a2'', ustr ''q3''] \<noteq> []
   \<and> context_str (Some [ustr ''q1'', ustr ''a1'', ustr ''q2'', ustr ''a2'', ustr ''q3'']) =
       ustr (''\<newline>Previous Conversation Context:\<newline>'' @
             ''User: a1\<newline>'' @
             ''Assistant: q2\<newline>'' @
             ''User: a2\<newline>'' @
             ''Assistant: q3'')"
proof -
  let ?h = "[ustr ''q1'', ustr ''a1'', ustr ''q2'', ustr ''a2'', ustr ''q3'']"
  have l: "last4 ?h = [ustr ''a1'', ustr ''q2'', ustr ''a2'', ustr ''q3'']"
    by (simp add: last4_def)
  have u: "[0..<4] = [0, 1, 2, 3]" by (simp add: upt_rec)
  have ne: "?h \<noteq> []" by simp
  from C9_history_context_section [of ?h "[]" "[]" None] ne
  have "context_str (Some ?h) =
        ustr ''\<newline>Previous Conversation Context:\<newline>'' @
        join (ustr ''\<newline>'')
          (map (\<lambda>i. (if even i then ustr ''User'' else ustr ''Assistant'') @ ustr '': '' @
                     last4 ?h ! i)
               [0..<length (last4 ?h)])"
    by blast
  then show ?thesis
    unfolding l by (simp add: u ustr_def)
qed


text \<open>
  C10. The empty-content check comes first: with content and query both empty, for every
  history (and every analyzer and endpoint), \<open>analyze_content\<close> returns the
  "No website content" warning, which is not the empty-query warning, and issues no
  request.
\<close>

theorem C10_empty_content_checked_first:
  "analyze_content a sl ep [] [] history = (Inr no_content_warning, no_effects)
   \<and> no_content_warning \<noteq> empty_query_warning
   \<and> contains no_content_warning (ustr ''No website content'')"
proof -
  have 1: "analyze_content a sl ep [] [] history = (Inr no_content_warning, no_effects)"
    by (simp add: analyze_content_def analyze_body_def)
  have 2: "no_content_warning \<noteq> empty_query_warning"
    by (simp add: no_content_warning_def empty_query_warning_def ustr_def)
  have "no_content_warning =
      (warning_marker @ ustr '' Error: '') @ ustr ''No website content'' @
      ustr '' loaded or content is empty.''"
    by (simp add: no_content_warning_def ustr_def)
  then have 3: "contains no_content_warning (ustr ''No website content'')"
    using contains_appendI by metis
  from 1 2 3 show ?thesis by blast
qed

section \<open>Properties of the text cleaner\<close>

lemma concat_map_concat_map:
  "concat (map f (concat (map g xs))) = concat (map (\<lambda>x. concat (map f (g x))) xs)"
  by (induction xs) auto

lemma concat_map_cong:
  "(\<And>x. x \<in> set xs \<Longrightarrow> f x = g x) \<Longrightarrow> concat (map f xs) = concat (map g xs)"
  by (induction xs) auto

lemma concat_map_singleton:
  "(\<And>x. x \<in> set xs \<Longrightarrow> f x = [x]) \<Longrightarrow> concat (map f xs) = xs"
  by (induction xs) auto

lemma ids_of_Nil [simp]: "ids_of [] = {}"
  by (simp add: ids_of_def)

lemma ids_of_Tag [simp]: "ids_of [Tag i name as contents] = {i}"
  by (auto simp: ids_of_def)

lemma ids_of_string [simp]: "ids_of [NavigableString s] = {}" "ids_of [OtherString s] = {}"
  by (auto simp: ids_of_def)

lemma without_after_without_set:
  "concat (map (without i) (without_set S t)) = without_set (insert i S) t"
proof (induction t)
  case (Tag j name as contents)
  have "concat (map (without i) (concat (map (without_set S) contents))) =
        concat (map (without_set (insert i S)) contents)"
    unfolding concat_map_concat_map
    by (rule concat_map_cong) (rule Tag.IH)
  then show ?case by simp
qed simp_all

lemma without_set_empty: "without_set {} t = [t]"
proof (induction t)
  case (Tag j name as contents)
  have "concat (map (without_set {}) contents) = contents"
    by (rule concat_map_singleton) (rule Tag.IH)
  then show ?case by simp
qed simp_all

lemma decompose_without_set:
  "decompose t (concat (map (without_set S) soup)) =
   concat (map (without_set (S \<union> ids_of [t])) soup)"
proof (cases t)
  case (Tag i name as contents)
  then show ?thesis
    by (simp add: decompose_def concat_map_concat_map without_after_without_set)
qed (simp_all add: decompose_def)

lemma ids_of_Cons: "ids_of (t # ts) = ids_of [t] \<union> ids_of ts"
  by (auto simp: ids_of_def)

lemma foldl_decompose:
  "foldl (\<lambda>soup' t. decompose t soup') (concat (map (without_set S) soup)) ts =
   concat (map (without_set (S \<union> ids_of ts)) soup)"
proof (induction ts arbitrary: S)
  case Nil
  then show ?case by simp
next
  case (Cons t ts)
  show ?case
    by (simp add: decompose_without_set Cons.IH ids_of_Cons [of t ts] Un_assoc)
qed

lemma decompose_all_without_set:
  "decompose_all names soup = concat (map (without_set (ids_of (find_all names soup))) soup)"
proof -
  have "soup = concat (map (without_set {}) soup)"
    by (rule sym, rule concat_map_singleton) (rule without_set_empty)
  then have "decompose_all names soup =
      foldl (\<lambda>soup' t. decompose t soup') (concat (map (without_set {}) soup)) (find_all names soup)"
    by (simp add: decompose_all_def)
  also have "\<dots> = concat (map (without_set ({} \<union> ids_of (find_all names soup))) soup)"
    by (rule foldl_decompose)
  finally show ?thesis by simp
qed

lemma ids_of_append: "ids_of (xs @ ys) = ids_of xs \<union> ids_of ys"
  by (auto simp: ids_of_def)

lemma ids_of_concat: "ids_of (concat xss) = (\<Union>xs \<in> set xss. ids_of xs)"
  by (induction xss) (auto simp: ids_of_append)

lemma ids_of_find_all_in:
  "ids_of (find_all_in names t) = {j. \<exists>n. (j, n) \<in> set (tags_in t) \<and> n \<in> set names}"
proof (induction t)
  case (Tag i name as contents)
  have "ids_of (concat (map (find_all_in names) contents)) =
        (\<Union>c \<in> set contents. {j. \<exists>n. (j, n) \<in> set (tags_in c) \<and> n \<in> set names})"
    using Tag.IH by (simp add: ids_of_concat)
  then show ?case
    by (auto simp: ids_of_append)
qed simp_all

lemma ids_of_find_all:
  "ids_of (find_all names soup) = {j. \<exists>n. (j, n) \<in> set (tags soup) \<and> n \<in> set names}"
  by (auto simp: find_all_def tags_def ids_of_concat ids_of_find_all_in)

lemma without_set_prune_in:
  assumes "\<And>j n. (j, n) \<in> set (tags_in t) \<Longrightarrow> j \<in> S \<longleftrightarrow> n \<in> set names"
  shows "without_set S t = prune_in names t"
  using assms
proof (induction t)
  case (Tag i name as contents)
  have "concat (map (without_set S) contents) = concat (map (prune_in names) contents)"
  proof (rule concat_map_cong)
    fix c assume c: "c \<in> set contents"
    show "without_set S c = prune_in names c"
    proof (rule Tag.IH [OF c])
      fix j n assume "(j, n) \<in> set (tags_in c)"
      then have "(j, n) \<in> set (tags_in (Tag i name as contents))" using c by auto
      then show "j \<in> S \<longleftrightarrow> n \<in> set names" by (rule Tag.prems)
    qed
  qed
  moreover have "i \<in> S \<longleftrightarrow> name \<in> set names" by (rule Tag.prems) simp
  ultimately show ?case by simp
qed simp_all

lemma decompose_all_prune:
  assumes "distinct (map fst (tags soup))"
  shows "decompose_all names soup = prune names soup"
proof -
  let ?S = "ids_of (find_all names soup)"
  have key: "j \<in> ?S \<longleftrightarrow> n \<in> set names" if "(j, n) \<in> set (tags soup)" for j n
  proof
    assume "j \<in> ?S"
    then obtain n' where "(j, n') \<in> set (tags soup)" "n' \<in> set names"
      by (auto simp: ids_of_find_all)
    with that assms show "n \<in> set names"
      by (metis eq_key_imp_eq_value)
  next
    assume "n \<in> set names"
    with that show "j \<in> ?S" by (auto simp: ids_of_find_all)
  qed
  have "concat (map (without_set ?S) soup) = concat (map (prune_in names) soup)"
  proof (rule concat_map_cong)
    fix t assume t: "t \<in> set soup"
    show "without_set ?S t = prune_in names t"
    proof (rule without_set_prune_in)
      fix j n assume "(j, n) \<in> set (tags_in t)"
      then have "(j, n) \<in> set (tags soup)" using t by (auto simp: tags_def)
      then show "j \<in> ?S \<longleftrightarrow> n \<in> set names" by (rule key)
    qed
  qed
  then show ?thesis by (simp add: decompose_all_without_set prune_def)
qed

lemma all_strings_prune_in:
  "concat (map all_strings (prune_in names t)) = visible_strings_in names t"
proof (induction t)
  case (Tag i name as contents)
  have "concat (map all_strings (concat (map (prune_in names) contents))) =
        concat (map (visible_strings_in names) contents)"
    unfolding concat_map_concat_map
    by (rule concat_map_cong) (rule Tag.IH)
  then show ?case by simp
qed simp_all

lemma all_strings_prune:
  "concat (map all_strings (prune names soup)) = visible_strings names soup"
  by (simp add: prune_def visible_strings_def concat_map_concat_map all_strings_prune_in)

lemma find_all_in_prune_in:
  "concat (map (find_all_in names) (prune_in names t)) = []"
proof (induction t)
  case (Tag i name as contents)
  have "concat (map (find_all_in names) (concat (map (prune_in names) contents))) = []"
    unfolding concat_map_concat_map using Tag.IH by simp
  then show ?case by simp
qed simp_all

lemma find_all_prune: "find_all names (prune names soup) = []"
  by (simp add: find_all_def prune_def concat_map_concat_map find_all_in_prune_in)

lemma linebreak_isspace: "is_linebreak c \<Longrightarrow> isspace c"
  by (auto simp: is_linebreak_def isspace_def)

lemma strip_eq_Nil_iff: "strip s = [] \<longleftrightarrow> (\<forall>c \<in> set s. isspace c)"
proof
  assume "strip s = []"
  then have a: "dropWhile isspace (rev (dropWhile isspace s)) = []" by (simp add: strip_def)
  have "dropWhile isspace s = []"
  proof (rule ccontr)
    assume ne: "dropWhile isspace s \<noteq> []"
    then have "\<not> isspace (hd (dropWhile isspace s))" by (rule hd_dropWhile)
    moreover have "hd (dropWhile isspace s) \<in> set (rev (dropWhile isspace s))"
      using ne by simp
    ultimately show False using a by auto
  qed
  then show "\<forall>c \<in> set s. isspace c" by simp
next
  assume "\<forall>c \<in> set s. isspace c"
  then have "dropWhile isspace s = []" by simp
  then show "strip s = []" by (simp only: strip_def rev.simps dropWhile.simps)
qed

lemma dropWhile_id: "xs \<noteq> [] \<Longrightarrow> \<not> P (hd xs) \<Longrightarrow> dropWhile P xs = xs"
  by (cases xs) auto

lemma strip_id:
  assumes "s \<noteq> []" and "\<not> isspace (hd s)" and "\<not> isspace (last s)"
  shows "strip s = s"
proof -
  have "dropWhile isspace s = s" using assms(1,2) by (rule dropWhile_id)
  moreover have "dropWhile isspace (rev s) = rev s"
    using assms(1,3) by (intro dropWhile_id) (simp_all add: hd_rev)
  ultimately show ?thesis by (simp add: strip_def)
qed

lemma last_dropWhile: "dropWhile P xs \<noteq> [] \<Longrightarrow> last (dropWhile P xs) = last xs"
  by (induction xs) (auto split: if_splits)

lemma strip_ends:
  assumes "strip s \<noteq> []"
  shows "\<not> isspace (hd (strip s))" and "\<not> isspace (last (strip s))"
proof -
  let ?d = "dropWhile isspace s"
  let ?e = "dropWhile isspace (rev ?d)"
  have e: "?e \<noteq> []" using assms by (simp add: strip_def)
  have d: "?d \<noteq> []"
  proof
    assume "?d = []"
    then have "?e = []" by (simp only: rev.simps dropWhile.simps)
    with e show False ..
  qed
  have "hd (strip s) = last ?e" using e by (simp add: strip_def hd_rev)
  also have "\<dots> = last (rev ?d)" using e by (rule last_dropWhile)
  also have "\<dots> = hd ?d" using d by (simp add: last_rev)
  finally show "\<not> isspace (hd (strip s))" using hd_dropWhile [OF d] by simp
  have "last (strip s) = hd ?e" using e by (simp add: strip_def last_rev)
  then show "\<not> isspace (last (strip s))" using hd_dropWhile [OF e] by simp
qed

lemma join_Cons: "ys \<noteq> [] \<Longrightarrow> join sep (x # ys) = x @ sep @ join sep ys"
  by (cases ys) simp_all

lemma join_nonempty: "xs \<noteq> [] \<Longrightarrow> last xs \<noteq> [] \<Longrightarrow> join sep xs \<noteq> []"
  by (induction sep xs rule: join.induct) auto

lemma hd_join: "xs \<noteq> [] \<Longrightarrow> hd xs \<noteq> [] \<Longrightarrow> hd (join sep xs) = hd (hd xs)"
  by (induction sep xs rule: join.induct) auto

lemma last_join: "xs \<noteq> [] \<Longrightarrow> last xs \<noteq> [] \<Longrightarrow> last (join sep xs) = last (last xs)"
proof (induction sep xs rule: join.induct)
  case (3 sep x y ys)
  then have "join sep (y # ys) \<noteq> []" by (intro join_nonempty) simp_all
  with 3 show ?case by simp
qed simp_all

lemma splitlines_from_linebreak_free:
  assumes "\<And>c. c \<in> set line \<Longrightarrow> \<not> is_linebreak c" and "l \<in> set (splitlines_from line s)"
  shows "\<not> is_linebreak c' \<or> c' \<notin> set l"
  using assms
  by (induction line s rule: splitlines_from.induct) (auto split: if_splits)

lemma splitlines_from_step:
  "\<not> is_linebreak c \<Longrightarrow> splitlines_from line (c # cs) = splitlines_from (line @ [c]) cs"
  by (cases cs) (auto simp: is_linebreak_def)

lemma splitlines_from_newline:
  "splitlines_from line (10 # rest) = line # splitlines_from [] rest"
  by (cases rest) (auto simp: is_linebreak_def)

lemma splitlines_from_line:
  "(\<And>c. c \<in> set l \<Longrightarrow> \<not> is_linebreak c) \<Longrightarrow>
   splitlines_from line (l @ rest) = splitlines_from (line @ l) rest"
  by (induction l arbitrary: line) (simp_all add: splitlines_from_step)

lemma splitlines_join:
  assumes "\<And>l c. l \<in> set ls \<Longrightarrow> c \<in> set l \<Longrightarrow> \<not> is_linebreak c"
    and "\<And>l. l \<in> set ls \<Longrightarrow> l \<noteq> []"
  shows "splitlines (join [10] ls) = ls"
  using assms
proof (induction ls)
  case Nil
  then show ?case by (simp add: splitlines_def)
next
  case (Cons l ls)
  have lf: "\<And>c. c \<in> set l \<Longrightarrow> \<not> is_linebreak c" using Cons.prems(1) [of l] by simp
  have ne: "l \<noteq> []" using Cons.prems(2) [of l] by simp
  show ?case
  proof (cases "ls = []")
    case True
    have "splitlines_from [] (l @ []) = splitlines_from ([] @ l) []"
      using lf by (rule splitlines_from_line)
    then show ?thesis using True ne by (simp add: splitlines_def)
  next
    case False
    have "splitlines_from [] (l @ 10 # join [10] ls) = splitlines_from ([] @ l) (10 # join [10] ls)"
      using lf by (rule splitlines_from_line)
    also have "\<dots> = l # splitlines_from [] (join [10] ls)"
      by (simp add: splitlines_from_newline)
    also have "splitlines_from [] (join [10] ls) = ls"
    proof -
      have "splitlines (join [10] ls) = ls"
        by (rule Cons.IH) (use Cons.prems in auto)
      then show ?thesis by (simp add: splitlines_def)
    qed
    finally show ?thesis using False by (simp add: splitlines_def join_Cons)
  qed
qed

lemma splitlines_from_first:
  assumes "line \<noteq> []"
  shows "\<exists>l ls. splitlines_from line s = l # ls \<and> l \<noteq> [] \<and> hd l = hd line"
  using assms
  by (induction line s rule: splitlines_from.induct) (auto split: if_splits)

lemma splitlines_first:
  assumes "s \<noteq> []" and "\<not> is_linebreak (hd s)"
  shows "\<exists>l ls. splitlines s = l # ls \<and> l \<noteq> [] \<and> hd l = hd s"
proof -
  obtain c cs where s: "s = c # cs" using assms(1) by (cases s) auto
  have "splitlines s = splitlines_from [c] cs"
    using assms(2) s by (simp add: splitlines_def splitlines_from_step)
  then show ?thesis using splitlines_from_first [of "[c]" cs] s by simp
qed

lemma splitlines_from_last:
  assumes "s \<noteq> []" and "\<not> is_linebreak (last s)"
  shows "splitlines_from line s \<noteq> [] \<and> last (splitlines_from line s) \<noteq> [] \<and>
         last (last (splitlines_from line s)) = last s"
  using assms
proof (induction line s rule: splitlines_from.induct)
  case (3 line c d cs)
  show ?case
  proof (cases "c = 13 \<and> d = 10")
    case True
    then have "cs \<noteq> []" using "3.prems"(2) by (auto simp: is_linebreak_def)
    then show ?thesis using True "3.IH"(1) "3.prems" by simp
  next
    case False
    then show ?thesis using "3.IH"(2,3) "3.prems" by auto
  qed
qed (auto split: if_splits)

lemma last_filter: "xs \<noteq> [] \<Longrightarrow> P (last xs) \<Longrightarrow> last (filter P xs) = last xs"
  by (induction xs) (auto simp: filter_empty_conv split: if_splits)

lemmas sample_defs = sample_library_def scenario_html_def scenario_soup_def
  scenario_body_contents_def repeated_text_html_def repeated_text_soup_def
  rejected_nav_html_def rejected_html_def ustr_def

lemmas clean_defs = clean_body_content_def decompose_all_def decompose_def find_all_def
  get_text_def splitlines_def strip_def isspace_def is_linebreak_def denylist_def

lemma scenario_clean:
  "clean_body_content sample_library scenario_html = Inr (ustr ''Hello\<newline>World'')"
  by (simp add: sample_defs clean_defs)



lemma charref_1: "clean_body_content sample_library (ustr ''&amp;lt;'') = Inr (ustr ''&lt;'')"
  by (simp add: sample_defs clean_defs)

lemma charref_2: "clean_body_content sample_library (ustr ''&lt;'') = Inr (ustr ''<'')"
  by (simp add: sample_defs clean_defs)

lemma charref_3:
  "parse sample_library (ustr ''&amp;lt;'') = Inr [NavigableString (ustr ''&lt;'')]"
  by (simp add: sample_defs)

lemma scenario_parse: "parse sample_library scenario_html = Inr scenario_soup"
  by (simp add: sample_library_def)

lemma scenario_distinct: "distinct (map fst (tags scenario_soup))"
  by (simp add: sample_defs tags_def)

lemma plain_parse:
  "parse sample_library (ustr ''Hello\<newline>World'') =
     Inr [NavigableString (ustr ''Hello\<newline>World'')]"
  by (simp add: sample_defs)

lemma repeated_parse: "parse sample_library repeated_text_html = Inr repeated_text_soup"
  by (simp add: sample_defs)

lemma repeated_clean: "clean_body_content sample_library repeated_text_html = Inr (ustr ''Hi'')"
  by (simp add: sample_defs clean_defs)

lemma rejected_nav_parse: "parse sample_library rejected_nav_html = Inl rejected_markup"
  by (simp add: sample_defs)


lemma nonblank_iff: "nonblank line \<longleftrightarrow> (\<exists>c \<in> set line. \<not> isspace c)"
  by (auto simp: nonblank_def strip_eq_Nil_iff)

lemma nonblank_hd: "line \<noteq> [] \<Longrightarrow> \<not> isspace (hd line) \<Longrightarrow> nonblank line"
  unfolding nonblank_iff by (cases line) auto

lemma nonblank_last: "line \<noteq> [] \<Longrightarrow> \<not> isspace (last line) \<Longrightarrow> nonblank line"
  unfolding nonblank_iff using last_in_set by blast

lemma nonblank_nonempty: "nonblank line \<Longrightarrow> line \<noteq> []"
  by (auto simp: nonblank_iff)

lemma get_text_ends:
  assumes "get_text sep soup \<noteq> []"
  shows "\<not> isspace (hd (get_text sep soup))" and "\<not> isspace (last (get_text sep soup))"
proof -
  let ?xs = "filter (\<lambda>s. s \<noteq> []) (map strip (concat (map all_strings soup)))"
  have t: "get_text sep soup = join sep ?xs" by (simp add: get_text_def)
  have xs: "?xs \<noteq> []" using assms unfolding t by auto
  have stripped: "\<exists>s. x = strip s \<and> strip s \<noteq> []" if "x \<in> set ?xs" for x
    using that by auto
  have "hd ?xs \<in> set ?xs" "last ?xs \<in> set ?xs" using xs by (simp_all del: set_filter)
  then obtain s1 s2 where h: "hd ?xs = strip s1" "strip s1 \<noteq> []"
    and l: "last ?xs = strip s2" "strip s2 \<noteq> []"
    using stripped by metis
  have "hd (get_text sep soup) = hd (strip s1)"
    unfolding t using xs h by (simp add: hd_join del: filter.simps)
  then show "\<not> isspace (hd (get_text sep soup))" using strip_ends(1) [OF h(2)] by simp
  have "last (get_text sep soup) = last (strip s2)"
    unfolding t using xs l by (simp add: last_join del: filter.simps)
  then show "\<not> isspace (last (get_text sep soup))" using strip_ends(2) [OF l(2)] by simp
qed

lemma cleaned_lines:
  assumes "t = [] \<or> \<not> isspace (hd t) \<and> \<not> isspace (last t)"
  defines "ls \<equiv> filter nonblank (splitlines t)"
  shows "splitlines (join [10] ls) = ls"
    and "join [10] ls = [] \<or> strip (join [10] ls) = join [10] ls"
proof -
  have free: "\<not> is_linebreak c" if "l \<in> set ls" "c \<in> set l" for l c
    using that splitlines_from_linebreak_free [of "[]" l t c]
    by (auto simp: ls_def splitlines_def)
  have ne: "l \<noteq> []" if "l \<in> set ls" for l
    using that by (auto simp: ls_def nonblank_nonempty)
  show "splitlines (join [10] ls) = ls"
    using free ne by (rule splitlines_join)
  show "join [10] ls = [] \<or> strip (join [10] ls) = join [10] ls"
  proof (cases "t = []")
    case True
    then show ?thesis by (simp add: ls_def splitlines_def)
  next
    case False
    with assms(1) have h: "\<not> isspace (hd t)" and l: "\<not> isspace (last t)" by auto
    from h have "\<not> is_linebreak (hd t)" using linebreak_isspace by blast
    from splitlines_first [OF False this]
    obtain l1 rest where sl: "splitlines t = l1 # rest" and l1: "l1 \<noteq> []" "hd l1 = hd t"
      by blast
    have nb1: "nonblank l1" using l1 h by (simp add: nonblank_hd)
    then have ls1: "ls = l1 # filter nonblank rest" by (simp add: ls_def sl)
    from l have "\<not> is_linebreak (last t)" using linebreak_isspace by blast
    from splitlines_from_last [OF False this, of "[]"]
    have m: "splitlines t \<noteq> []" "last (splitlines t) \<noteq> []"
      "last (last (splitlines t)) = last t"
      by (simp_all add: splitlines_def)
    have nbm: "nonblank (last (splitlines t))" using m l by (simp add: nonblank_last)
    have lastls: "last ls = last (splitlines t)"
      unfolding ls_def using m(1) nbm by (rule last_filter)
    have lsne: "ls \<noteq> []" by (simp add: ls1)
    have y1: "join [10] ls \<noteq> []"
      using lsne lastls m(2) by (intro join_nonempty) simp_all
    have y2: "hd (join [10] ls) = hd t"
      using l1 by (simp add: ls1 hd_join)
    have y3: "last (join [10] ls) = last t"
      using lsne lastls m by (simp add: last_join)
    have "strip (join [10] ls) = join [10] ls"
      using y1 y2 y3 h l by (intro strip_id) simp_all
    then show ?thesis ..
  qed
qed

lemma clean_body_content_text:
  assumes "body_html \<noteq> []" and "parse lib body_html = Inr parsed"
  shows "clean_body_content lib body_html =
     Inr (join [10] (filter nonblank
       (splitlines (get_text [10] (decompose_all denylist parsed)))))"
proof -
  have "(\<lambda>line. strip line \<noteq> []) = nonblank" by (simp add: fun_eq_iff nonblank_def)
  then show ?thesis
    using assms by (simp add: clean_body_content_def ustr_def)
qed

lemma clean_body_content_raises:
  assumes "body_html \<noteq> []" and "parse lib body_html = Inl e"
  shows "clean_body_content lib body_html = Inl e"
  using assms by (simp add: clean_body_content_def)

lemma clean_plain_text:
  assumes "parse lib y = Inr [NavigableString y]" and "strip y = y" and "y \<noteq> []"
  shows "clean_body_content lib y = Inr (join [10] (filter nonblank (splitlines y)))"
proof -
  have "decompose_all denylist [NavigableString y] = [NavigableString y]"
    by (simp add: decompose_all_def find_all_def)
  then have "get_text [10] (decompose_all denylist [NavigableString y]) = y"
    using assms by (simp add: get_text_def)
  then show ?thesis
    using clean_body_content_text [OF assms(3,1)] by simp
qed

lemma clean_of_cleaned:
  assumes "clean_body_content lib x = Inr y" and "parse lib y = Inr [NavigableString y]"
  shows "clean_body_content lib y = Inr y"
proof (cases "y = []")
  case True
  then show ?thesis by (simp add: clean_body_content_def)
next
  case False
  with assms(1) have x: "x \<noteq> []" by (auto simp: clean_body_content_def)
  from assms(1) x obtain parsed where parsed: "parse lib x = Inr parsed"
    by (cases "parse lib x") (auto simp: clean_body_content_def)
  let ?t = "get_text [10] (decompose_all denylist parsed)"
  let ?ls = "filter nonblank (splitlines ?t)"
  have y: "y = join [10] ?ls"
    using clean_body_content_text [OF x parsed] assms(1) by simp
  have ends: "?t = [] \<or> \<not> isspace (hd ?t) \<and> \<not> isspace (last ?t)"
    using get_text_ends [of "[10]" "decompose_all denylist parsed"] by blast
  have sl: "splitlines (join [10] ?ls) = ?ls"
    and st: "join [10] ?ls = [] \<or> strip (join [10] ?ls) = join [10] ?ls"
    using cleaned_lines [OF ends] by blast+
  from st False y have st': "strip y = y" by simp
  have "clean_body_content lib y = Inr (join [10] (filter nonblank (splitlines y)))"
    using assms(2) st' False by (rule clean_plain_text)
  also have "\<dots> = Inr y" unfolding y by (simp add: sl)
  finally show ?thesis .
qed






text \<open>
  C6, as amended. The parser accepts the page, and the elements of the parsed document
  are distinct objects. Then the loop of \<open>clean_body_content\<close> removes every element whose
  name is on the denylist, with its whole subtree, and no such element is left; the
  cleaned output is computed from the text strings that have no denylisted element above
  them and from nothing else, so the text inside a denylisted element contributes nothing
  to it. When the parser reads the scenario page as the scenario tree, the cleaned output
  is "Hello", a newline, "World". When the parser rejects a non-empty page, its exception
  leaves \<open>clean_body_content\<close>.
\<close>

theorem C6_denylisted_subtrees_removed:
  assumes "parse lib body_html = Inr soup" and "distinct (map fst (tags soup))"
  shows "decompose_all denylist soup = prune denylist soup
    \<and> find_all denylist (decompose_all denylist soup) = []
    \<and> clean_body_content lib body_html =
        Inr (if body_html = [] then []
             else join (ustr ''\<newline>'') (filter (\<lambda>line. strip line \<noteq> [])
                    (splitlines (join (ustr ''\<newline>'') (filter (\<lambda>s. s \<noteq> [])
                       (map strip (visible_strings denylist soup)))))))
    \<and> (parse lib scenario_html = Inr scenario_soup \<longrightarrow>
         clean_body_content lib scenario_html = Inr (ustr ''Hello\<newline>World''))
    \<and> (html \<noteq> [] \<and> parse lib html = Inl e \<longrightarrow> clean_body_content lib html = Inl e)"
proof -
  have 1: "decompose_all denylist soup = prune denylist soup"
    using assms(2) by (rule decompose_all_prune)
  have 2: "find_all denylist (decompose_all denylist soup) = []"
    unfolding 1 by (rule find_all_prune)
  have 3: "clean_body_content lib body_html =
        Inr (if body_html = [] then []
             else join (ustr ''\<newline>'') (filter (\<lambda>line. strip line \<noteq> [])
                    (splitlines (join (ustr ''\<newline>'') (filter (\<lambda>s. s \<noteq> [])
                       (map strip (visible_strings denylist soup)))))))"
    using assms(1) by (simp add: clean_body_content_def get_text_def 1 all_strings_prune)
  have 4: "clean_body_content lib scenario_html = Inr (ustr ''Hello\<newline>World'')"
    if "parse lib scenario_html = Inr scenario_soup"
    using that
    by (simp add: scenario_html_def scenario_soup_def scenario_body_contents_def ustr_def
        clean_defs)
  have 5: "clean_body_content lib html = Inl e" if "html \<noteq> []" "parse lib html = Inl e"
    using that by (rule clean_body_content_raises)
  from 1 2 3 4 5 show ?thesis by blast
qed

theorem C6_denylisted_subtrees_removed_witness:
  "parse sample_library scenario_html = Inr scenario_soup
   \<and> distinct (map fst (tags scenario_soup))
   \<and> decompose_all denylist scenario_soup =
       [Tag 0 (ustr ''body'') []
          [Tag 2 (ustr ''p'') []
             [NavigableString (ustr ''Hello ''),
              Tag 3 (ustr ''b'') [] [NavigableString (ustr ''World'')]]]]
   \<and> visible_strings denylist scenario_soup = [ustr ''Hello '', ustr ''World'']
   \<and> clean_body_content sample_library scenario_html = Inr (ustr ''Hello\<newline>World'')
   \<and> rejected_nav_html \<noteq> []
   \<and> parse sample_library rejected_nav_html = Inl rejected_markup
   \<and> clean_body_content sample_library rejected_nav_html = Inl rejected_markup"
proof -
  note a = scenario_parse and b = scenario_distinct
  have c: "prune denylist scenario_soup =
       [Tag 0 (ustr ''body'') []
          [Tag 2 (ustr ''p'') []
             [NavigableString (ustr ''Hello ''),
              Tag 3 (ustr ''b'') [] [NavigableString (ustr ''World'')]]]]"
    by (simp add: scenario_soup_def scenario_body_contents_def prune_def denylist_def ustr_def)
  have d: "visible_strings denylist scenario_soup = [ustr ''Hello '', ustr ''World'']"
    by (simp add: scenario_soup_def scenario_body_contents_def visible_strings_def
        denylist_def ustr_def)
  have r: "rejected_nav_html \<noteq> []" by (simp add: rejected_nav_html_def ustr_def)
  from C6_denylisted_subtrees_removed
    [OF a b, where html=rejected_nav_html and e=rejected_markup]
  have e: "decompose_all denylist scenario_soup = prune denylist scenario_soup"
    and f: "parse sample_library scenario_html = Inr scenario_soup \<longrightarrow>
         clean_body_content sample_library scenario_html = Inr (ustr ''Hello\<newline>World'')"
    and g: "rejected_nav_html \<noteq> [] \<and> parse sample_library rejected_nav_html = Inl rejected_markup
         \<longrightarrow> clean_body_content sample_library rejected_nav_html = Inl rejected_markup"
    by blast+
  from e c have h: "decompose_all denylist scenario_soup =
       [Tag 0 (ustr ''body'') []
          [Tag 2 (ustr ''p'') []
             [NavigableString (ustr ''Hello ''),
              Tag 3 (ustr ''b'') [] [NavigableString (ustr ''World'')]]]]"
    by (simp only:)
  from a b d f g h r rejected_nav_parse show ?thesis by blast
qed

text \<open>
  C6 as stated fails in two places. On the page whose navigation and paragraph both say
  "Hi", the text inside the denylisted element is "Hi" and the cleaned output is "Hi": it
  contains that text. On the page with a navigation element and a marked section that
  the parser rejects, \<open>clean_body_content\<close> removes nothing and raises.
\<close>

theorem C6_counterexample:
  "parse sample_library repeated_text_html = Inr repeated_text_soup
   \<and> hidden_strings denylist repeated_text_soup = [ustr ''Hi'']
   \<and> clean_body_content sample_library repeated_text_html = Inr (ustr ''Hi'')
   \<and> contains (ustr ''Hi'') (ustr ''Hi'')
   \<and> contains rejected_nav_html (ustr ''<nav>'')
   \<and> clean_body_content sample_library rejected_nav_html = Inl rejected_markup"
proof -
  have a: "hidden_strings denylist repeated_text_soup = [ustr ''Hi'']"
    by (simp add: repeated_text_soup_def hidden_strings_def denylist_def ustr_def)
  have b: "contains (ustr ''Hi'') (ustr ''Hi'')"
    using contains_appendI [of "[]" "ustr ''Hi''" "[]"] by simp
  have "rejected_nav_html = ustr ''<body>'' @ ustr ''<nav>'' @ ustr ''Menu</nav><![x y]>z</body>''"
    by (simp add: rejected_nav_html_def ustr_def)
  then have c: "contains rejected_nav_html (ustr ''<nav>'')"
    using contains_appendI by metis
  have r: "rejected_nav_html \<noteq> []" by (simp add: rejected_nav_html_def ustr_def)
  have d: "clean_body_content sample_library rejected_nav_html = Inl rejected_markup"
    using r rejected_nav_parse by (rule clean_body_content_raises)
  from a b c d repeated_parse repeated_clean show ?thesis by blast
qed




text \<open>
  C8, as amended. Cleaning a cleaned text again gives the same text whenever the parser
  reads the cleaned text back as a single text node with the same characters, as it does
  for a text without markup and without character references. When the first cleaning
  raises, so does the repeated one.
\<close>

theorem C8_idempotent_on_plain_text:
  assumes "\<And>y. clean_body_content lib x = Inr y \<Longrightarrow> parse lib y = Inr [NavigableString y]"
  shows "clean_twice lib x = clean_body_content lib x"
proof (cases "clean_body_content lib x")
  case (Inl e)
  then show ?thesis by (simp add: clean_twice_def)
next
  case (Inr y)
  from clean_of_cleaned [OF Inr assms [OF Inr]] Inr show ?thesis
    by (simp add: clean_twice_def)
qed

theorem C8_idempotent_on_plain_text_witness:
  "clean_body_content sample_library scenario_html = Inr (ustr ''Hello\<newline>World'')
   \<and> parse sample_library (ustr ''Hello\<newline>World'') =
       Inr [NavigableString (ustr ''Hello\<newline>World'')]
   \<and> clean_twice sample_library scenario_html = Inr (ustr ''Hello\<newline>World'')"
proof -
  have p: "\<And>y. clean_body_content sample_library scenario_html = Inr y \<Longrightarrow>
      parse sample_library y = Inr [NavigableString y]"
    using plain_parse by (simp add: scenario_clean)
  from C8_idempotent_on_plain_text [of sample_library scenario_html, OF p]
  show ?thesis
    using plain_parse by (simp add: scenario_clean)
qed

text \<open>
  C8 as stated fails on an input without any tag: the text \<^verbatim>\<open>&amp;lt;\<close> is cleaned to
  \<^verbatim>\<open>&lt;\<close>, and cleaning that again decodes the character reference once more and gives
  \<^verbatim>\<open><\<close>.
\<close>

theorem C8_counterexample:
  "parse sample_library (ustr ''&amp;lt;'') = Inr [NavigableString (ustr ''&lt;'')]
   \<and> find_all denylist [NavigableString (ustr ''&lt;'')] = []
   \<and> clean_body_content sample_library (ustr ''&amp;lt;'') = Inr (ustr ''&lt;'')
   \<and> clean_twice sample_library (ustr ''&amp;lt;'') = Inr (ustr ''<'')
   \<and> clean_twice sample_library (ustr ''&amp;lt;'')
       \<noteq> clean_body_content sample_library (ustr ''&amp;lt;'')"
proof -
  have "ustr ''<'' \<noteq> ustr ''&lt;''" by (simp add: ustr_def)
  moreover have "find_all denylist [NavigableString (ustr ''&lt;'')] = []"
    by (simp add: find_all_def)
  ultimately show ?thesis
    by (simp add: clean_twice_def charref_1 charref_2 charref_3)
qed

end
